theory Spec2Isabelle
  imports Main "HOL-Library.AList" "HOL-Library.Char_ord" "HOL-Library.List_Lexorder"
    "HOL-Library.Product_Lexorder"
begin

section \<open>Common types\<close>

text \<open>
  Engine times are Python \<open>datetime\<close> values: a total order. They are modelled as
  integers. The sentinels \<open>MIN_DT\<close>, \<open>MAX_DT\<close> and \<open>MIN_ST\<close> are imported by the
  sources from modules that are not part of them, so every function that reads one takes
  it as an argument of the same name.

  A Python call either returns or raises. A call that mutates its receiver is a function
  from the state before to \<open>Inr\<close> of the state after (with the returned value, if any), or
  to \<open>Inl (e, s)\<close> where \<open>e\<close> is the exception and \<open>s\<close> the state at the moment of the
  raise: Python does not roll back what was mutated before it.
\<close>

type_synonym time = int

datatype error =
  KeyError | ValueError | RuntimeError | TypeError | AttributeError | RecursionError | UserError

section \<open>The graph as seen from one node (\<open>hg/_impl/_runtime/_node.py\<close>)\<close>

text \<open>
  The sources use three things of the graph and its execution context: the field
  \<open>graph.context.current_engine_time\<close>, the call
  \<open>graph.context.mark_push_has_pending_values()\<close> and the call
  \<open>graph.schedule_node(ndx, t)\<close>. The graph class itself is not among the sources, so the
  model keeps the time, the flag, and a log of the \<open>schedule_node\<close> calls in the order
  they were made.
\<close>

record graph =
  current_engine_time :: time
  push_has_pending_values :: bool
  schedule_node_calls :: "(nat \<times> time) list"

definition schedule_node :: "nat \<Rightarrow> time \<Rightarrow> graph \<Rightarrow> graph" where
  "schedule_node ndx t g = g\<lparr>schedule_node_calls := schedule_node_calls g @ [(ndx, t)]\<rparr>"

definition mark_push_has_pending_values :: "graph \<Rightarrow> graph" where
  "mark_push_has_pending_values g = g\<lparr>push_has_pending_values := True\<rparr>"

section \<open>NodeSchedulerImpl\<close>

text \<open>
  \<open>_scheduled_events\<close> is a \<open>SortedList\<close> of \<open>(datetime, str)\<close> tuples, ordered
  lexicographically; \<open>_tags\<close> is a dict from the tag to its time. The key of \<open>_tags\<close> is
  the \<open>tag\<close> argument itself, which may be \<open>None\<close>, hence \<open>string option\<close>.
  \<open>SortedList.add\<close> is \<open>insort\<close>, \<open>SortedList.remove\<close> removes one occurrence and
  raises \<open>ValueError\<close> when there is none, \<open>pop(0)\<close> drops the head.
\<close>

record node_scheduler =
  scheduled_events :: "(time \<times> string) list"
  tags :: "string option \<rightharpoonup> time"

definition next_scheduled_time :: "time \<Rightarrow> node_scheduler \<Rightarrow> time" where
  "next_scheduled_time MIN_DT s =
     (case scheduled_events s of [] \<Rightarrow> MIN_DT | e # _ \<Rightarrow> fst e)"

definition is_scheduled :: "node_scheduler \<Rightarrow> bool" where
  "is_scheduled s = (scheduled_events s \<noteq> [])"

definition is_scheduled_now :: "graph \<Rightarrow> node_scheduler \<Rightarrow> bool" where
  "is_scheduled_now g s =
     (case scheduled_events s of [] \<Rightarrow> False | e # _ \<Rightarrow> fst e = current_engine_time g)"

text \<open>The first statement of \<open>schedule\<close>: drop the old entry of a tag that is in \<open>_tags\<close>.\<close>

definition remove_tagged :: "string option \<Rightarrow> node_scheduler \<Rightarrow> error + node_scheduler" where
  "remove_tagged tag s =
     (case tag of
        None \<Rightarrow> Inr s
      | Some tg \<Rightarrow>
          (case tags s (Some tg) of
             None \<Rightarrow> Inr s
           | Some t \<Rightarrow>
               if (t, tg) \<in> set (scheduled_events s)
               then Inr (s\<lparr>scheduled_events := remove1 (t, tg) (scheduled_events s)\<rparr>)
               else Inl ValueError))"

definition schedule ::
  "time \<Rightarrow> time \<Rightarrow> nat \<Rightarrow> time \<Rightarrow> string option \<Rightarrow> node_scheduler \<times> graph
     \<Rightarrow> (error \<times> node_scheduler \<times> graph) + (node_scheduler \<times> graph)" where
  "schedule MIN_DT MAX_DT node_ndx when_t tag sg =
     (case sg of (s, g) \<Rightarrow>
        (case remove_tagged tag s of
           Inl e \<Rightarrow> Inl (e, s, g)
         | Inr s1 \<Rightarrow>
             if when_t > current_engine_time g then
               let s2 = s1\<lparr>tags := (tags s1)(tag \<mapsto> when_t)\<rparr>;
                   current_first = (case scheduled_events s2 of [] \<Rightarrow> MAX_DT | e # _ \<Rightarrow> fst e);
                   s3 = s2\<lparr>scheduled_events :=
                          insort (when_t, case tag of None \<Rightarrow> [] | Some tg \<Rightarrow> tg)
                                 (scheduled_events s2)\<rparr>;
                   next_t = next_scheduled_time MIN_DT s3
               in Inr (s3, if current_first > next_t then schedule_node node_ndx next_t g else g)
             else Inr (s1, g)))"

definition un_schedule :: "string option \<Rightarrow> node_scheduler \<Rightarrow> (error \<times> node_scheduler) + node_scheduler" where
  "un_schedule tag s =
     (case tag of
        Some tg \<Rightarrow>
          (case tags s (Some tg) of
             None \<Rightarrow> Inr s
           | Some t \<Rightarrow>
               if (t, tg) \<in> set (scheduled_events s)
               then Inr (s\<lparr>scheduled_events := remove1 (t, tg) (scheduled_events s),
                           tags := (tags s)(Some tg := None)\<rparr>)
               else Inl (ValueError, s))
      | None \<Rightarrow> Inr (s\<lparr>scheduled_events := tl (scheduled_events s)\<rparr>))"

definition reset :: "node_scheduler \<Rightarrow> node_scheduler" where
  "reset s = s\<lparr>scheduled_events := [], tags := Map.empty\<rparr>"

text \<open>The \<open>while\<close> loop of \<open>advance\<close> pops the head as long as it is due.\<close>

fun pop_until :: "time \<Rightarrow> (time \<times> string) list \<Rightarrow> (time \<times> string) list" where
  "pop_until until [] = []"
| "pop_until until (e # es) = (if fst e \<le> until then pop_until until es else e # es)"

definition advance :: "nat \<Rightarrow> node_scheduler \<times> graph \<Rightarrow> node_scheduler \<times> graph" where
  "advance node_ndx sg =
     (case sg of (s, g) \<Rightarrow>
        let until = current_engine_time g;
            s1 = s\<lparr>scheduled_events := pop_until until (scheduled_events s)\<rparr>
        in (case scheduled_events s1 of
              [] \<Rightarrow> (s1, g)
            | e # _ \<Rightarrow> (s1, schedule_node node_ndx (fst e) g)))"

section \<open>NodeImpl\<close>

text \<open>
  Of a time-series input, \<open>NodeImpl.eval\<close> reads \<open>valid\<close> only; \<open>modified\<close> is kept in
  the model because the specification speaks about it. The input bundle \<open>self.input\<close> is
  \<open>None\<close> or an object, which Python takes as true; \<open>self.input[k]\<close> raises \<open>KeyError\<close>
  for a name the bundle does not have. Of the signature, \<open>eval\<close> reads the names of
  \<open>time_series_inputs\<close> and the optional \<open>valid_inputs\<close>.

  The output class is not among the sources: the model logs every
  \<open>output.apply_result(v)\<close> with the engine time of the call, in call order.

  The node is taken after \<open>start\<close>, which builds \<open>self._kwargs\<close>.
  The user function is called with \<open>self._kwargs\<close>, which hold the inputs, the scalars
  and the injected objects (the scheduler among them), so it may change the node's state;
  it returns a value or \<open>None\<close>, or raises. It is an argument of the model. The field
  \<open>eval_fn_calls\<close> is not a field of the source: \<open>eval\<close> counts there how often it
  has called the user function.
\<close>

record ts_input =
  valid :: bool
  modified :: bool

record node_signature =
  time_series_inputs :: "string list"
  valid_inputs :: "string list option"

record 'v node =
  node_ndx :: nat
  signature :: node_signature
  graph :: graph
  node_input :: "(string \<rightharpoonup> ts_input) option"
  node_output :: "(time \<times> 'v) list option"
  scheduler :: "node_scheduler option"
  eval_fn_calls :: nat

type_synonym 'v user_fn = "'v node \<Rightarrow> (error \<times> 'v node) + ('v option \<times> 'v node)"

text \<open>\<open>all(self.input[k].valid for k in args)\<close> and \<open>any(...)\<close>, left to right, lazily.\<close>

fun all_valid :: "(string \<rightharpoonup> ts_input) \<Rightarrow> string list \<Rightarrow> error + bool" where
  "all_valid inp [] = Inr True"
| "all_valid inp (k # ks) =
     (case inp k of
        None \<Rightarrow> Inl KeyError
      | Some ts \<Rightarrow> if valid ts then all_valid inp ks else Inr False)"

fun any_valid :: "(string \<rightharpoonup> ts_input) \<Rightarrow> string list \<Rightarrow> error + bool" where
  "any_valid inp [] = Inr False"
| "any_valid inp (k # ks) =
     (case inp k of
        None \<Rightarrow> Inl KeyError
      | Some ts \<Rightarrow> if valid ts then Inr True else any_valid inp ks)"

definition valid_args :: "'v node \<Rightarrow> string list" where
  "valid_args n =
     (case valid_inputs (signature n) of
        Some v \<Rightarrow> v
      | None \<Rightarrow> time_series_inputs (signature n))"

text \<open>
  The \<open>if self.input:\<close> block of \<open>eval\<close>: \<open>Inr False\<close> is one of its two \<open>return\<close>s,
  \<open>Inr True\<close> falls through to the call of the user function.
\<close>

definition input_gate :: "'v node \<Rightarrow> bool \<Rightarrow> error + bool" where
  "input_gate n scheduled =
     (case node_input n of
        None \<Rightarrow> Inr True
      | Some inp \<Rightarrow>
          (case all_valid inp (valid_args n) of
             Inl e \<Rightarrow> Inl e
           | Inr False \<Rightarrow> Inr False
           | Inr True \<Rightarrow>
               (case scheduler n of
                  None \<Rightarrow> Inr True
                | Some _ \<Rightarrow>
                    if scheduled then Inr True
                    else any_valid inp (valid_args n))))"

definition apply_result :: "'v \<Rightarrow> 'v node \<Rightarrow> (error \<times> 'v node) + 'v node" where
  "apply_result v n =
     (case node_output n of
        None \<Rightarrow> Inl (AttributeError, n)
      | Some log \<Rightarrow> Inr (n\<lparr>node_output := Some (log @ [(current_engine_time (graph n), v)])\<rparr>))"

definition advance_scheduler :: "'v node \<Rightarrow> (error \<times> 'v node) + 'v node" where
  "advance_scheduler n =
     (case scheduler n of
        None \<Rightarrow> Inl (AttributeError, n)
      | Some s \<Rightarrow>
          (case advance (node_ndx n) (s, graph n) of
             (s', g') \<Rightarrow> Inr (n\<lparr>scheduler := Some s', graph := g'\<rparr>)))"

text \<open>The tail of \<open>eval\<close>, from \<open>out = self.eval_fn(**self._kwargs)\<close> on.\<close>

definition call_eval_fn :: "'v user_fn \<Rightarrow> bool \<Rightarrow> 'v node \<Rightarrow> (error \<times> 'v node) + 'v node" where
  "call_eval_fn eval_fn scheduled n =
     (case eval_fn (n\<lparr>eval_fn_calls := eval_fn_calls n + 1\<rparr>) of
        Inl en \<Rightarrow> Inl en
      | Inr (out, n1) \<Rightarrow>
          (case (case out of None \<Rightarrow> Inr n1 | Some v \<Rightarrow> apply_result v n1) of
             Inl en \<Rightarrow> Inl en
           | Inr n2 \<Rightarrow> if scheduled then advance_scheduler n2 else Inr n2))"

definition scheduled :: "'v node \<Rightarrow> bool" where
  "scheduled n = (case scheduler n of None \<Rightarrow> False | Some s \<Rightarrow> is_scheduled_now (graph n) s)"

definition node_eval :: "'v user_fn \<Rightarrow> 'v node \<Rightarrow> (error \<times> 'v node) + 'v node" where
  "node_eval eval_fn n =
     (case input_gate n (scheduled n) of
        Inl e \<Rightarrow> Inl (e, n)
      | Inr False \<Rightarrow> Inr n
      | Inr True \<Rightarrow> call_eval_fn eval_fn (scheduled n) n)"

section \<open>Concrete nodes and schedulers\<close>

text \<open>A user function that returns \<open>None\<close> and touches nothing.\<close>

definition returns_none :: "nat user_fn" where
  "returns_none n = Inr (None, n)"

definition idle_input :: "string \<rightharpoonup> ts_input" where
  "idle_input = [''ts'' \<mapsto> \<lparr>valid = True, modified = False\<rparr>]"

definition stale_input :: "string \<rightharpoonup> ts_input" where
  "stale_input = [''ts'' \<mapsto> \<lparr>valid = False, modified = False\<rparr>]"

text \<open>
  A compute node at engine time 7 with one input \<open>ts\<close> that is valid and not modified,
  no \<open>valid_inputs\<close> in its signature, and no scheduler.
\<close>

definition idle_node :: "nat node" where
  "idle_node = \<lparr>node_ndx = 0,
      signature = \<lparr>time_series_inputs = [''ts''], valid_inputs = None\<rparr>,
      graph = \<lparr>current_engine_time = 7, push_has_pending_values = False, schedule_node_calls = []\<rparr>,
      node_input = Some idle_input,
      node_output = Some [],
      scheduler = None,
      eval_fn_calls = 0\<rparr>"

text \<open>The same node after \<open>node.scheduler\<close> was read once: a scheduler with no events.\<close>

definition idle_scheduler_node :: "nat node" where
  "idle_scheduler_node = idle_node\<lparr>scheduler := Some \<lparr>scheduled_events = [], tags = Map.empty\<rparr>\<rparr>"

definition stale_node :: "nat node" where
  "stale_node = idle_node\<lparr>node_input := Some stale_input\<rparr>"

definition fresh_scheduler :: node_scheduler where
  "fresh_scheduler = \<lparr>scheduled_events = [], tags = Map.empty\<rparr>"

definition graph_at :: "time \<Rightarrow> graph" where
  "graph_at t = \<lparr>current_engine_time = t, push_has_pending_values = False, schedule_node_calls = []\<rparr>"

definition two_events :: node_scheduler where
  "two_events = \<lparr>scheduled_events = [(3, ''a''), (5, ''b'')], tags = [Some ''a'' \<mapsto> 3, Some ''b'' \<mapsto> 5]\<rparr>"

section \<open>Predicates on schedulers\<close>

text \<open>The scheduled entries that carry a given tag.\<close>

definition entries_of :: "string \<Rightarrow> node_scheduler \<Rightarrow> (time \<times> string) list" where
  "entries_of tg s = filter (\<lambda>e. snd e = tg) (scheduled_events s)"

text \<open>
  \<open>_tags\<close> agrees with \<open>_scheduled_events\<close> on a tag: the tag is in \<open>_tags\<close> exactly when
  an entry carries it, there is one such entry, and \<open>_tags\<close> holds its time.
\<close>

definition tag_indexed :: "string \<Rightarrow> node_scheduler \<Rightarrow> bool" where
  "tag_indexed tg s =
     (case tags s (Some tg) of
        None \<Rightarrow> entries_of tg s = []
      | Some t \<Rightarrow> entries_of tg s = [(t, tg)])"

section \<open>PythonPushQueueNodeImpl and \<open>_SenderReceiverState\<close>\<close>

text \<open>
  The node creates a \<open>_SenderReceiverState\<close> in \<open>start\<close> and hands the same object to
  the user function as the sender; \<open>stop\<close> sets its \<open>stopped\<close> flag and forgets it
  (\<open>self.receiver = None\<close>), while the sender lives on in the hands of the user. The
  model keeps the receiver objects in a store, a list indexed by address, a new object
  being appended; \<open>receiver\<close> is the node's field, an address or \<open>None\<close>. A call through
  an address that was never allocated stands for no Python call; the model answers
  \<open>AttributeError\<close>. The lock is not modelled: every method body runs under it as one
  step. The queue may hold \<open>None\<close>, which \<open>enqueue\<close> does not refuse.
\<close>

record 'v sender_receiver_state =
  queue :: "'v option list"
  stopped :: bool

record 'v push_queue_node =
  receivers :: "'v sender_receiver_state list"
  receiver :: "nat option"
  pq_graph :: graph
  pq_output :: "(time \<times> 'v) list option"

definition enqueue ::
  "nat \<Rightarrow> 'v option \<Rightarrow> 'v push_queue_node \<Rightarrow> (error \<times> 'v push_queue_node) + 'v push_queue_node" where
  "enqueue a v w =
     (if a < length (receivers w) then
        let r = receivers w ! a in
        if stopped r then Inl (RuntimeError, w)
        else Inr (w\<lparr>receivers := (receivers w)[a := r\<lparr>queue := queue r @ [v]\<rparr>],
                    pq_graph := mark_push_has_pending_values (pq_graph w)\<rparr>)
      else Inl (AttributeError, w))"

definition dequeue ::
  "nat \<Rightarrow> 'v push_queue_node \<Rightarrow> (error \<times> 'v push_queue_node) + ('v option \<times> 'v push_queue_node)" where
  "dequeue a w =
     (if a < length (receivers w) then
        let r = receivers w ! a in
        (case queue r of
           [] \<Rightarrow> Inr (None, w)
         | v # vs \<Rightarrow> Inr (v, w\<lparr>receivers := (receivers w)[a := r\<lparr>queue := vs\<rparr>]\<rparr>))
      else Inl (AttributeError, w))"

text \<open>\<open>start\<close> returns the address of the new receiver: the sender given to the user function.\<close>

definition push_queue_start :: "'v push_queue_node \<Rightarrow> nat \<times> 'v push_queue_node" where
  "push_queue_start w =
     (length (receivers w),
      w\<lparr>receivers := receivers w @ [\<lparr>queue = [], stopped = False\<rparr>],
        receiver := Some (length (receivers w))\<rparr>)"

definition push_queue_eval :: "'v push_queue_node \<Rightarrow> (error \<times> 'v push_queue_node) + 'v push_queue_node" where
  "push_queue_eval w =
     (case receiver w of
        None \<Rightarrow> Inl (AttributeError, w)
      | Some a \<Rightarrow>
          (case dequeue a w of
             Inl ew \<Rightarrow> Inl ew
           | Inr (None, w1) \<Rightarrow> Inr w1
           | Inr (Some v, w1) \<Rightarrow>
               let w2 = w1\<lparr>pq_graph := mark_push_has_pending_values (pq_graph w1)\<rparr> in
               (case pq_output w2 of
                  None \<Rightarrow> Inl (AttributeError, w2)
                | Some log \<Rightarrow>
                    Inr (w2\<lparr>pq_output := Some (log @ [(current_engine_time (pq_graph w2), v)])\<rparr>))))"

definition push_queue_stop :: "'v push_queue_node \<Rightarrow> (error \<times> 'v push_queue_node) + 'v push_queue_node" where
  "push_queue_stop w =
     (case receiver w of
        None \<Rightarrow> Inl (AttributeError, w)
      | Some a \<Rightarrow>
          if a < length (receivers w) then
            Inr (w\<lparr>receivers := (receivers w)[a := (receivers w ! a)\<lparr>stopped := True\<rparr>],
                  receiver := None\<rparr>)
          else Inl (AttributeError, w))"

text \<open>
  Whatever happens to a push-queue node is a sequence of these calls, made by the engine
  or by the threads that hold a sender. A call that raises leaves the state it had
  reached; the caller goes on from there.
\<close>

datatype 'v push_call = Start | Eval | Stop | Enqueue nat "'v option" | Dequeue nat

definition state_of :: "('e \<times> 's) + 's \<Rightarrow> 's" where
  "state_of r = (case r of Inl es \<Rightarrow> snd es | Inr s \<Rightarrow> s)"

fun after_call :: "'v push_call \<Rightarrow> 'v push_queue_node \<Rightarrow> 'v push_queue_node" where
  "after_call Start w = snd (push_queue_start w)"
| "after_call Eval w = state_of (push_queue_eval w)"
| "after_call Stop w = state_of (push_queue_stop w)"
| "after_call (Enqueue a v) w = state_of (enqueue a v w)"
| "after_call (Dequeue a) w = (case dequeue a w of Inl ew \<Rightarrow> snd ew | Inr vw \<Rightarrow> snd vw)"

definition stopped_at :: "nat \<Rightarrow> 'v push_queue_node \<Rightarrow> bool" where
  "stopped_at a w = (a < length (receivers w) \<and> stopped (receivers w ! a))"

definition running_at :: "nat \<Rightarrow> 'v push_queue_node \<Rightarrow> bool" where
  "running_at a w = (a < length (receivers w) \<and> \<not> stopped (receivers w ! a))"

definition new_push_node :: "nat push_queue_node" where
  "new_push_node = \<lparr>receivers = [], receiver = None, pq_graph = graph_at 0, pq_output = Some []\<rparr>"

text \<open>The node after \<open>start\<close>, holding the receiver at address 0.\<close>

definition started_push_node :: "nat push_queue_node" where
  "started_push_node =
     \<lparr>receivers = [\<lparr>queue = [], stopped = False\<rparr>], receiver = Some 0,
      pq_graph = graph_at 0, pq_output = Some []\<rparr>"

section \<open>GeneratorNodeImpl\<close>

text \<open>
  \<open>self.generator\<close> is \<open>None\<close> until \<open>start\<close>, then a Python generator of
  \<open>(time, value)\<close> pairs, either of which may be \<open>None\<close>. The model holds the pairs the
  generator has still to yield, a finite list; \<open>next(self.generator, (None, None))\<close>
  takes the head, or gives \<open>(None, None)\<close> when the generator is exhausted.
  The output is the log of \<open>apply_result\<close> calls, as for \<open>NodeImpl\<close>.
\<close>

record 'v generator_node =
  gen_ndx :: nat
  gen_graph :: graph
  gen_output :: "(time \<times> 'v) list option"
  generator :: "(time option \<times> 'v option) list option"
  next_value :: "'v option"

definition gen_apply_result ::
  "'v \<Rightarrow> 'v generator_node \<Rightarrow> (error \<times> 'v generator_node) + 'v generator_node" where
  "gen_apply_result v n =
     (case gen_output n of
        None \<Rightarrow> Inl (AttributeError, n)
      | Some log \<Rightarrow> Inr (n\<lparr>gen_output := Some (log @ [(current_engine_time (gen_graph n), v)])\<rparr>))"

text \<open>
  The two last statements of \<open>eval\<close>, reached when the pair just pulled is not applied at
  once: apply and clear the cached \<open>next_value\<close>, then cache and schedule the pair.
\<close>

definition gen_settle ::
  "time option \<Rightarrow> 'v option \<Rightarrow> 'v generator_node \<Rightarrow> (error \<times> 'v generator_node) + 'v generator_node" where
  "gen_settle time_o out n =
     (case (case next_value n of
              None \<Rightarrow> Inr n
            | Some c \<Rightarrow>
                (case gen_apply_result c n of
                   Inl en \<Rightarrow> Inl en
                 | Inr n1 \<Rightarrow> Inr (n1\<lparr>next_value := None\<rparr>))) of
        Inl en \<Rightarrow> Inl en
      | Inr n2 \<Rightarrow>
          (case time_o of
             None \<Rightarrow> Inr n2
           | Some t \<Rightarrow>
               (case out of
                  None \<Rightarrow> Inr n2
                | Some v \<Rightarrow>
                    Inr (n2\<lparr>next_value := Some v,
                            gen_graph := schedule_node (gen_ndx n2) t (gen_graph n2)\<rparr>))))"

text \<open>The condition of the first \<open>if\<close> of \<open>eval\<close>.\<close>

definition due :: "time \<Rightarrow> time option \<times> 'v option \<Rightarrow> bool" where
  "due now p = (case p of (Some t, Some v) \<Rightarrow> t \<le> now | _ \<Rightarrow> False)"

text \<open>
  \<open>eval\<close> calls itself after it has applied a due pair, one nested call for each due
  pair in a row, and Python bounds the depth of nested calls. \<open>frames\<close> is the number of
  nested calls of \<open>eval\<close> that the interpreter still allows when \<open>eval\<close> is called:
  with none left the call raises \<open>RecursionError\<close>. How deep into the last call the
  limit is met depends on the frames that \<open>apply_result\<close> of the output class needs,
  which is not among the sources; the model lets the call that exceeds the limit raise
  before it has changed the node.
\<close>

fun generator_eval ::
  "nat \<Rightarrow> 'v generator_node \<Rightarrow> (error \<times> 'v generator_node) + 'v generator_node" where
  "generator_eval 0 n = Inl (RecursionError, n)"
| "generator_eval (Suc frames) n =
     (case generator n of
        None \<Rightarrow> Inl (TypeError, n)
      | Some [] \<Rightarrow> gen_settle None None n
      | Some (p # rest) \<Rightarrow>
          if due (current_engine_time (gen_graph n)) p then
            (case gen_output n of
               None \<Rightarrow> Inl (AttributeError, n\<lparr>generator := Some rest\<rparr>)
             | Some log \<Rightarrow>
                 generator_eval frames
                   (n\<lparr>generator := Some rest,
                      gen_output := Some (log @ [(current_engine_time (gen_graph n), the (snd p))]),
                      next_value := None\<rparr>))
          else gen_settle (fst p) (snd p) (n\<lparr>generator := Some rest\<rparr>))"

text \<open>\<open>start\<close>: the user function returns the generator, here the pairs it will yield.\<close>

definition generator_start ::
  "(time option \<times> 'v option) list \<Rightarrow> 'v generator_node \<Rightarrow> 'v generator_node" where
  "generator_start yields n =
     n\<lparr>generator := Some yields,
       gen_graph := schedule_node (gen_ndx n) (current_engine_time (gen_graph n)) (gen_graph n)\<rparr>"

text \<open>The engine moving to the next instant.\<close>

definition at_time :: "time \<Rightarrow> 'v generator_node \<Rightarrow> 'v generator_node" where
  "at_time t n = n\<lparr>gen_graph := (gen_graph n)\<lparr>current_engine_time := t\<rparr>\<rparr>"

definition new_generator_node :: "nat generator_node" where
  "new_generator_node =
     \<lparr>gen_ndx = 0, gen_graph = graph_at 0, gen_output = Some [], generator = None,
      next_value = None\<rparr>"

text \<open>Three nodes at the start of an \<open>eval\<close>, and one generator with two pairs for one instant.\<close>

definition gen_due_node :: "nat generator_node" where
  "gen_due_node =
     \<lparr>gen_ndx = 0, gen_graph = graph_at 5, gen_output = Some [],
      generator = Some [(Some 5, Some 2)], next_value = None\<rparr>"

definition gen_future_node :: "nat generator_node" where
  "gen_future_node =
     \<lparr>gen_ndx = 0, gen_graph = graph_at 0, gen_output = Some [],
      generator = Some [(Some 5, Some 1)], next_value = None\<rparr>"

definition gen_cached_node :: "nat generator_node" where
  "gen_cached_node =
     \<lparr>gen_ndx = 0, gen_graph = graph_at 5, gen_output = Some [],
      generator = Some [(Some 6, Some 2)], next_value = Some 1\<rparr>"

text \<open>
  The node of \<open>gen_cached_node\<close> with an exhausted generator, and with a generator whose
  next pair has no value.
\<close>

definition gen_exhausted_node :: "nat generator_node" where
  "gen_exhausted_node = gen_cached_node\<lparr>generator := Some []\<rparr>"

definition gen_null_node :: "nat generator_node" where
  "gen_null_node = gen_cached_node\<lparr>generator := Some [(Some 6, None), (Some 7, Some 3)]\<rparr>"

text \<open>A node at time 5 whose generator has two due pairs in a row.\<close>

definition gen_two_due_node :: "nat generator_node" where
  "gen_two_due_node =
     \<lparr>gen_ndx = 0, gen_graph = graph_at 5, gen_output = Some [],
      generator = Some [(Some 4, Some 1), (Some 5, Some 2)], next_value = None\<rparr>"

definition twice_at_5 :: "(time option \<times> nat option) list" where
  "twice_at_5 = [(Some 5, Some 1), (Some 5, Some 2)]"

section \<open>PythonTimeSeriesDictOutput (\<open>hgraph/_impl/_types/_tsd.py\<close>)\<close>

text \<open>
  The state of a TSD output that its methods read and write: \<open>_ts_values\<close>, the key set,
  \<open>_removed_items\<close> (a dict, kept as the list of its items in insertion order),
  \<open>_added_keys\<close> and \<open>_key_observers\<close>. A child output is
  represented by the value last assigned to it, \<open>None\<close> for a child that was created and
  not yet assigned (the class of the children is not among the sources). The key set is a
  \<open>TimeSeriesSetOutput\<close>, of which the methods \<open>add\<close> and \<open>remove\<close> are used; it is
  modelled as the set of its keys. Observers are known by a number, and every
  \<open>on_key_added\<close> and \<open>on_key_removed\<close> is logged with the observer that received it.
  \<open>after_evaluation_notifications\<close> is the engine's list of registered callbacks, to
  which \<open>add_after_evaluation_notification\<close> appends.
\<close>

datatype 'v tsd_item = Value 'v | REMOVE | REMOVE_IF_EXISTS

datatype 'k key_event = On_key_added 'k | On_key_removed 'k

datatype tsd_callback = Clear_key_changes

record ('k, 'v) tsd_output =
  ts_values :: "'k \<rightharpoonup> 'v option"
  key_set :: "'k set"
  removed_items :: "('k \<times> 'v option) list"
  added_keys :: "'k set"
  key_observers :: "nat list"
  observer_calls :: "(nat \<times> 'k key_event) list"
  after_evaluation_notifications :: "tsd_callback list"

definition notify_observers :: "'k key_event \<Rightarrow> ('k, 'v) tsd_output \<Rightarrow> ('k, 'v) tsd_output" where
  "notify_observers ev s =
     s\<lparr>observer_calls := observer_calls s @ map (\<lambda>ob. (ob, ev)) (key_observers s)\<rparr>"

definition delitem ::
  "'k \<Rightarrow> ('k, 'v) tsd_output \<Rightarrow> (error \<times> ('k, 'v) tsd_output) + ('k, 'v) tsd_output" where
  "delitem k s =
     (case ts_values s k of
        None \<Rightarrow> Inl (KeyError, s)
      | Some child \<Rightarrow>
          Inr (notify_observers (On_key_removed k)
                 (s\<lparr>removed_items := AList.update k child (removed_items s),
                    ts_values := (ts_values s)(k := None),
                    key_set := key_set s - {k}\<rparr>)))"

definition create :: "'k \<Rightarrow> ('k, 'v) tsd_output \<Rightarrow> ('k, 'v) tsd_output" where
  "create k s =
     notify_observers (On_key_added k)
       (s\<lparr>key_set := insert k (key_set s), ts_values := (ts_values s)(k \<mapsto> None)\<rparr>)"

text \<open>
  Modelled from the spec: \<open>get_or_create\<close> is declared in the base class
  \<open>TimeSeriesDictOutput\<close>, which is not among the sources. The specification has:
  if absent, create child output, add to key-set, add to \<open>added_keys\<close>, notify observers
  \<open>on_key_added(k)\<close>. Creating, adding to the key set and notifying are \<open>_create\<close> above.
\<close>

definition get_or_create :: "'k \<Rightarrow> ('k, 'v) tsd_output \<Rightarrow> ('k, 'v) tsd_output" where
  "get_or_create k s =
     (if ts_values s k \<noteq> None then s
      else (create k s)\<lparr>added_keys := insert k (added_keys s)\<rparr>)"

text \<open>The loop of the \<open>value\<close> setter over the \<open>(k, v_)\<close> pairs, in iteration order.\<close>

fun set_items ::
  "('k \<times> 'v tsd_item) list \<Rightarrow> ('k, 'v) tsd_output
     \<Rightarrow> (error \<times> ('k, 'v) tsd_output) + ('k, 'v) tsd_output" where
  "set_items [] s = Inr s"
| "set_items ((k, REMOVE) # kvs) s =
     (case delitem k s of Inl es \<Rightarrow> Inl es | Inr s1 \<Rightarrow> set_items kvs s1)"
| "set_items ((k, REMOVE_IF_EXISTS) # kvs) s =
     (if ts_values s k = None then set_items kvs s
      else (case delitem k s of Inl es \<Rightarrow> Inl es | Inr s1 \<Rightarrow> set_items kvs s1))"
| "set_items ((k, Value v) # kvs) s =
     set_items kvs ((get_or_create k s)\<lparr>ts_values := (ts_values (get_or_create k s))(k \<mapsto> Some v)\<rparr>)"

text \<open>
  The \<open>value\<close> setter for a mapping or an iterable of pairs. (With \<open>None\<close> the setter
  calls \<open>invalidate\<close>, which rests on the base class and is not modelled.)
\<close>

definition set_value ::
  "('k \<times> 'v tsd_item) list \<Rightarrow> ('k, 'v) tsd_output
     \<Rightarrow> (error \<times> ('k, 'v) tsd_output) + ('k, 'v) tsd_output" where
  "set_value v s =
     (case set_items v s of
        Inl es \<Rightarrow> Inl es
      | Inr s1 \<Rightarrow>
          if removed_items s1 \<noteq> [] \<or> added_keys s1 \<noteq> {}
          then Inr (s1\<lparr>after_evaluation_notifications :=
                         after_evaluation_notifications s1 @ [Clear_key_changes]\<rparr>)
          else Inr s1)"

definition clear_key_changes :: "('k, 'v) tsd_output \<Rightarrow> ('k, 'v) tsd_output" where
  "clear_key_changes s = s\<lparr>removed_items := [], added_keys := {}\<rparr>"

fun run_callback :: "tsd_callback \<Rightarrow> ('k, 'v) tsd_output \<Rightarrow> ('k, 'v) tsd_output" where
  "run_callback Clear_key_changes s = clear_key_changes s"

text \<open>
  Modelled from the spec: the engine loop is not among the sources. The specification
  has, as step 5 of the loop: after the drain, invoke registered after-evaluation
  callbacks, then clear them.
\<close>

definition run_after_evaluation :: "('k, 'v) tsd_output \<Rightarrow> ('k, 'v) tsd_output" where
  "run_after_evaluation s =
     (fold run_callback (after_evaluation_notifications s) s)
       \<lparr>after_evaluation_notifications := []\<rparr>"

text \<open>A TSD output with the one key 1, whose child has the value 10, between two drains.\<close>

definition tsd_one_key :: "(nat, nat) tsd_output" where
  "tsd_one_key =
     \<lparr>ts_values = [1 \<mapsto> Some 10], key_set = {1}, removed_items = [], added_keys = {},
      key_observers = [], observer_calls = [], after_evaluation_notifications = []\<rparr>"

section \<open>References (\<open>hgraph/_impl/_types/_ref.py\<close>)\<close>

text \<open>
  \<open>PythonTimeSeriesReference\<close> remembers in \<open>tp\<close> the class of the object it was built
  from and tests it with \<open>issubclass\<close> and \<open>isinstance\<close>. A Python class is modelled by
  its name and the names of its proper ancestors; \<open>isinstance(x, c)\<close> is
  \<open>issubclass(type(x), c)\<close>.
\<close>

record py_class =
  class_name :: string
  bases :: "string list"

definition issubclass :: "py_class \<Rightarrow> string \<Rightarrow> bool" where
  "issubclass c b = (b = class_name c \<or> b \<in> set (bases c))"

text \<open>An output, as far as a reference and an input bound to it look at it.\<close>

record ts_output =
  out_class :: py_class
  out_valid :: bool
  out_last_modified_time :: time

text \<open>
  The three forms that \<open>__init__\<close> builds: without arguments an invalid reference (only
  \<open>valid = False\<close> is set); with \<open>has_peer\<close> the output it points to; otherwise its
  \<open>items\<close>. \<open>tp\<close> is \<open>type(ts)\<close> of the output or input the reference was built from,
  the \<open>tp\<close> of the copied reference, or \<open>None\<close> when built with \<open>from_items\<close>.
\<close>

datatype reference =
    Invalid_reference
  | Peer_reference "py_class option" ts_output
  | Items_reference "py_class option" "reference list"

text \<open>\<open>PythonTimeSeriesReference(output)\<close> as \<open>do_bind_output\<close> calls it, \<open>output\<close> possibly \<open>None\<close>.\<close>

definition make_reference :: "ts_output option \<Rightarrow> reference" where
  "make_reference output =
     (case output of
        None \<Rightarrow> Invalid_reference
      | Some ou \<Rightarrow> Peer_reference (Some (out_class ou)) ou)"

text \<open>
  An input: its class, \<open>_output\<close>, its \<open>_sample_time\<close>, the field \<open>_value\<close> of a
  reference input, whether it is active, and of its owning node \<open>is_started\<close> and
  \<open>node_ndx\<close>. Its children are what iterating it yields: the \<open>_items\<close> of a reference
  input, the elements of a list or bundle input.
\<close>

record in_fields =
  in_class :: py_class
  in_output :: "ts_output option"
  in_value :: "reference option"
  sample_time :: time
  active :: bool
  owner_started :: bool
  owner_ndx :: nat

datatype ts_in = Ts_in (attrs: in_fields) (in_items: "ts_in list")

definition isinstance :: "ts_in \<Rightarrow> py_class \<Rightarrow> bool" where
  "isinstance i c = issubclass (in_class (attrs i)) (class_name c)"

definition is_reference_input :: "ts_in \<Rightarrow> bool" where
  "is_reference_input i = issubclass (in_class (attrs i)) ''PythonTimeSeriesReferenceInput''"

definition is_reference_output :: "ts_output \<Rightarrow> bool" where
  "is_reference_output ou = issubclass (out_class ou) ''TimeSeriesReferenceOutput''"

definition notify :: "ts_in \<Rightarrow> graph \<Rightarrow> graph" where
  "notify i g = schedule_node (owner_ndx (attrs i)) (current_engine_time g) g"

text \<open>
  Modelled from the spec: \<open>do_bind_output\<close> of the base class
  \<open>PythonBoundTimeSeriesInput\<close>, which is not among the sources and which a reference
  input calls as \<open>super().do_bind_output(output)\<close> for a reference output. The
  specification has: REF inputs, when bound to a REF output, pass through the reference
  value; an input is bound to at most one output at a time.
\<close>

definition super_do_bind_output :: "ts_output \<Rightarrow> ts_in \<Rightarrow> ts_in" where
  "super_do_bind_output ou i = Ts_in ((attrs i)\<lparr>in_output := Some ou\<rparr>) (in_items i)"

text \<open>
  \<open>PythonTimeSeriesReferenceInput.do_bind_output\<close>. \<open>isinstance(output,
  TimeSeriesReferenceOutput)\<close> is false for \<open>None\<close>.
\<close>

definition ref_do_bind_output :: "time \<Rightarrow> ts_output option \<Rightarrow> ts_in \<Rightarrow> graph \<Rightarrow> ts_in \<times> graph" where
  "ref_do_bind_output MIN_ST output i g =
     (case output of
        Some ou \<Rightarrow>
          if is_reference_output ou
          then (super_do_bind_output ou i, g)
          else (Ts_in ((attrs i)\<lparr>in_value := Some (make_reference output),
                                  sample_time := (if owner_started (attrs i)
                                                  then current_engine_time g else MIN_ST)\<rparr>)
                      (in_items i),
                notify i g)
      | None \<Rightarrow>
          (Ts_in ((attrs i)\<lparr>in_value := Some (make_reference output),
                             sample_time := (if owner_started (attrs i)
                                             then current_engine_time g else MIN_ST)\<rparr>)
                 (in_items i),
           notify i g))"

text \<open>\<open>PythonTimeSeriesReferenceInput.bind_output\<close>.\<close>

definition ref_bind_output :: "time \<Rightarrow> ts_output option \<Rightarrow> ts_in \<Rightarrow> graph \<Rightarrow> ts_in \<times> graph" where
  "ref_bind_output MIN_ST output i g =
     (case ref_do_bind_output MIN_ST output i g of
        (i1, g1) \<Rightarrow>
          (case in_output (attrs i1) of
             None \<Rightarrow> (i1, g1)
           | Some ou \<Rightarrow>
               if owner_started (attrs i1) \<and> out_valid ou
               then (Ts_in ((attrs i1)\<lparr>sample_time := current_engine_time g1\<rparr>) (in_items i1),
                     if active (attrs i1) then notify i1 g1 else g1)
               else (i1, g1)))"

text \<open>
  Modelled from the spec: \<open>bind_output\<close> of the inputs that are not reference inputs is
  defined in \<open>PythonBoundTimeSeriesInput\<close>, which is not among the sources. The
  specification has: an input is bound to at most one output at a time; binding replaces
  any previous binding; and re-binding a REF output to a different concrete output causes
  every observer of the REF output to change \<open>last_modified_time\<close> at the current engine
  time. The model replaces the binding and keeps the engine time of the binding as the
  sample time of the input.
\<close>

definition bound_bind_output :: "ts_output option \<Rightarrow> ts_in \<Rightarrow> graph \<Rightarrow> ts_in" where
  "bound_bind_output output i g =
     Ts_in ((attrs i)\<lparr>in_output := output, sample_time := current_engine_time g\<rparr>) (in_items i)"

text \<open>\<open>ts_input.bind_output(output)\<close>, dispatched on the class of the input.\<close>

definition bind_output :: "time \<Rightarrow> ts_output option \<Rightarrow> ts_in \<Rightarrow> graph \<Rightarrow> ts_in \<times> graph" where
  "bind_output MIN_ST output i g =
     (if is_reference_input i then ref_bind_output MIN_ST output i g
      else (bound_bind_output output i g, g))"

text \<open>
  The children that \<open>zip(ts_input, self.items)\<close> draws from the input. A list or bundle
  input yields the children it has. A reference input is iterated through its
  \<open>__getitem__\<close>, which appends new reference inputs of the same owning node up to the
  index asked for; \<open>zip\<close> asks for one index more than there are items before it finds
  the items exhausted. The fields of a new child that its constructor call does not give
  take the values of an input that was never bound, with \<open>MIN_DT\<close> as sample time.
\<close>

definition new_reference_input :: "time \<Rightarrow> ts_in \<Rightarrow> ts_in" where
  "new_reference_input MIN_DT parent =
     Ts_in \<lparr>in_class = \<lparr>class_name = ''PythonTimeSeriesReferenceInput'',
                         bases = [''PythonBoundTimeSeriesInput'', ''TimeSeriesReferenceInput'',
                                  ''TimeSeriesInput'']\<rparr>,
            in_output = None, in_value = None, sample_time = MIN_DT, active = False,
            owner_started = owner_started (attrs parent),
            owner_ndx = owner_ndx (attrs parent)\<rparr> []"

definition children_for_zip :: "time \<Rightarrow> nat \<Rightarrow> ts_in \<Rightarrow> ts_in list" where
  "children_for_zip MIN_DT n i =
     (if is_reference_input i
      then in_items i @ replicate (n + 1 - length (in_items i)) (new_reference_input MIN_DT i)
      else in_items i)"

text \<open>The type test of \<open>bind_input\<close>: true when \<open>TypeError\<close> is to be raised.\<close>

definition type_mismatch :: "py_class option \<Rightarrow> ts_in \<Rightarrow> bool" where
  "type_mismatch tp i =
     (case tp of
        None \<Rightarrow> False
      | Some c \<Rightarrow> \<not> issubclass c ''TimeSeriesOutput'' \<and> \<not> isinstance i c)"

text \<open>
  \<open>PythonTimeSeriesReference.bind_input\<close>, with the loop over
  \<open>zip(ts_input, self.items)\<close> as \<open>bind_items\<close>. A raise carries the input as far as it
  was rebound, and the graph with the notifications made until then.
\<close>

fun bind_input ::
    "time \<Rightarrow> time \<Rightarrow> reference \<Rightarrow> ts_in \<Rightarrow> graph \<Rightarrow> (error \<times> ts_in \<times> graph) + (ts_in \<times> graph)"
  and bind_items ::
    "time \<Rightarrow> time \<Rightarrow> reference list \<Rightarrow> ts_in list \<Rightarrow> graph
       \<Rightarrow> (error \<times> ts_in list \<times> graph) + (ts_in list \<times> graph)" where
  "bind_input MIN_DT MIN_ST Invalid_reference i g = Inr (bind_output MIN_ST None i g)"
| "bind_input MIN_DT MIN_ST (Peer_reference tp ou) i g =
     (if type_mismatch tp i then Inl (TypeError, i, g)
      else Inr (bind_output MIN_ST (Some ou) i g))"
| "bind_input MIN_DT MIN_ST (Items_reference tp rs) i g =
     (if type_mismatch tp i then Inl (TypeError, i, g)
      else (case bind_items MIN_DT MIN_ST rs (children_for_zip MIN_DT (length rs) i) g of
              Inl (e, kids, g1) \<Rightarrow> Inl (e, Ts_in (attrs i) kids, g1)
            | Inr (kids, g1) \<Rightarrow> Inr (Ts_in (attrs i) kids, g1)))"
| "bind_items MIN_DT MIN_ST [] kids g = Inr (kids, g)"
| "bind_items MIN_DT MIN_ST (r # rs) [] g = Inr ([], g)"
| "bind_items MIN_DT MIN_ST (r # rs) (k # kids) g =
     (case bind_input MIN_DT MIN_ST r k g of
        Inl (e, k1, g1) \<Rightarrow> Inl (e, k1 # kids, g1)
      | Inr (k1, g1) \<Rightarrow>
          (case bind_items MIN_DT MIN_ST rs kids g1 of
             Inl (e, kids1, g2) \<Rightarrow> Inl (e, k1 # kids1, g2)
           | Inr (kids1, g2) \<Rightarrow> Inr (k1 # kids1, g2)))"




section \<open>PythonTimeSeriesReferenceOutput\<close>






section \<open>Concrete outputs, inputs and references\<close>

definition value_output_class :: py_class where
  "value_output_class =
     \<lparr>class_name = ''PythonTimeSeriesValueOutput'',
      bases = [''PythonTimeSeriesOutput'', ''TimeSeriesValueOutput'', ''TimeSeriesOutput'']\<rparr>"

definition value_input_class :: py_class where
  "value_input_class =
     \<lparr>class_name = ''PythonTimeSeriesValueInput'',
      bases = [''PythonBoundTimeSeriesInput'', ''TimeSeriesValueInput'', ''TimeSeriesInput'']\<rparr>"

definition set_input_class :: py_class where
  "set_input_class =
     \<lparr>class_name = ''PythonTimeSeriesSetInput'',
      bases = [''PythonBoundTimeSeriesInput'', ''TimeSeriesSetInput'', ''TimeSeriesInput'']\<rparr>"

definition reference_input_class :: py_class where
  "reference_input_class =
     \<lparr>class_name = ''PythonTimeSeriesReferenceInput'',
      bases = [''PythonBoundTimeSeriesInput'', ''TimeSeriesReferenceInput'', ''TimeSeriesInput'']\<rparr>"

definition some_output :: ts_output where
  "some_output = \<lparr>out_class = value_output_class, out_valid = True, out_last_modified_time = 3\<rparr>"

definition unbound_input :: "py_class \<Rightarrow> bool \<Rightarrow> ts_in" where
  "unbound_input c started =
     Ts_in \<lparr>in_class = c, in_output = None, in_value = None, sample_time = 0, active = True,
            owner_started = started, owner_ndx = 1\<rparr> []"



section \<open>Properties of the node scheduler\<close>

lemma sorted_pop_until: "sorted es \<Longrightarrow> sorted (pop_until until es)"
  by (induction es) auto

lemma sorted_remove_tagged:
  "sorted (scheduled_events s) \<Longrightarrow> remove_tagged tag s = Inr s1 \<Longrightarrow> sorted (scheduled_events s1)"
  by (auto simp: remove_tagged_def sorted_remove1 split: option.splits if_splits)

lemma sorted_schedule:
  assumes "sorted (scheduled_events s)"
      and "schedule MIN_DT MAX_DT ndx t tag (s, g) = Inr (s', g')"
  shows "sorted (scheduled_events s')"
proof (cases "remove_tagged tag s")
  case (Inl e)
  with assms(2) show ?thesis by (simp add: schedule_def)
next
  case (Inr s1)
  then have "sorted (scheduled_events s1)"
    using assms(1) sorted_remove_tagged by blast
  with assms(2) Inr show ?thesis
    by (auto simp: schedule_def Let_def sorted_insort split: if_splits)
qed

lemma sorted_un_schedule:
  "sorted (scheduled_events s) \<Longrightarrow> un_schedule tag s = Inr s' \<Longrightarrow> sorted (scheduled_events s')"
  by (auto simp: un_schedule_def sorted_remove1 sorted_tl split: option.splits if_splits)

lemma sorted_advance:
  assumes "sorted (scheduled_events s)" and "advance ndx (s, g) = (s', g')"
  shows "sorted (scheduled_events s')"
proof -
  have "scheduled_events s' = pop_until (current_engine_time g) (scheduled_events s)"
    using assms(2) by (auto simp: advance_def Let_def split: list.splits)
  with assms(1) show ?thesis by (simp add: sorted_pop_until)
qed

lemma filter_tag_insort:
  "filter (\<lambda>e. snd e = tg) xs = [] \<Longrightarrow> filter (\<lambda>e. snd e = tg) (insort (t, tg) xs) = [(t, tg)]"
  by (induction xs) (auto simp: insort_is_Cons)

lemma filter_tag_remove1:
  "filter (\<lambda>e. snd e = tg) xs = [(t, tg)] \<Longrightarrow> filter (\<lambda>e. snd e = tg) (remove1 (t, tg) xs) = []"
  by (induction xs) (auto split: if_splits)

lemma filter_single_mem: "filter P xs = [x] \<Longrightarrow> x \<in> set xs"
proof -
  assume "filter P xs = [x]"
  then have "x \<in> set (filter P xs)" by simp
  then show ?thesis by simp
qed

lemma remove_tagged_indexed:
  assumes "tag_indexed tg s"
  shows "\<exists>s1. remove_tagged (Some tg) s = Inr s1 \<and> entries_of tg s1 = [] \<and> tags s1 = tags s"
  using assms
  by (auto simp: tag_indexed_def remove_tagged_def entries_of_def filter_tag_remove1
      split: option.splits dest: filter_single_mem)

lemma schedule_future:
  assumes "tag_indexed tg s" and "t > current_engine_time g"
  shows "\<exists>s' g'. schedule MIN_DT MAX_DT ndx t (Some tg) (s, g) = Inr (s', g') \<and>
           entries_of tg s' = [(t, tg)] \<and> tags s' (Some tg) = Some t \<and>
           current_engine_time g' = current_engine_time g"
proof -
  from remove_tagged_indexed[OF assms(1)] obtain s1 where
    r: "remove_tagged (Some tg) s = Inr s1" and e: "entries_of tg s1 = []" by blast
  show ?thesis
    using r e assms(2)
    by (simp add: schedule_def Let_def entries_of_def filter_tag_insort schedule_node_def)
qed

lemma schedule_future_indexed:
  assumes "tag_indexed tg s" and "t > current_engine_time g"
  shows "\<exists>s' g'. schedule MIN_DT MAX_DT ndx t (Some tg) (s, g) = Inr (s', g') \<and>
           tag_indexed tg s' \<and> current_engine_time g' = current_engine_time g"
  using schedule_future[OF assms, of MIN_DT MAX_DT ndx]
  by (auto simp: tag_indexed_def)

lemma schedule_past:
  assumes "tag_indexed tg s" and "t \<le> current_engine_time g"
  shows "\<exists>s'. schedule MIN_DT MAX_DT ndx t (Some tg) (s, g) = Inr (s', g) \<and>
           entries_of tg s' = []"
proof -
  from remove_tagged_indexed[OF assms(1)] obtain s1 where
    r: "remove_tagged (Some tg) s = Inr s1" and e: "entries_of tg s1 = []" by blast
  show ?thesis
    using r e assms(2) by (simp add: schedule_def)
qed

text \<open>
  C3, as the code has it. For a tag given as a string, on a scheduler whose \<open>_tags\<close> agrees
  with its entries on that tag (a fresh scheduler does, and \<open>schedule\<close> with a future
  time keeps it so), and a time \<open>t1\<close> after the current engine time:
  \<open>schedule(t1, tag)\<close> returns, and \<open>schedule(t2, tag)\<close> after it returns as well. When
  \<open>t2\<close> is after the current engine time, exactly one scheduled entry then carries the
  tag, with time \<open>t2\<close>. When it is not, the entry of \<open>t1\<close> has been removed and none
  added: no entry carries the tag.
\<close>

theorem reschedule_same_tag:
  assumes "tag_indexed tg s" and "t1 > current_engine_time g"
  shows "\<exists>s1 g1.
           schedule MIN_DT MAX_DT ndx t1 (Some tg) (s, g) = Inr (s1, g1) \<and>
           (t2 > current_engine_time g \<longrightarrow>
              (\<exists>s2 g2. schedule MIN_DT MAX_DT ndx t2 (Some tg) (s1, g1) = Inr (s2, g2) \<and>
                        entries_of tg s2 = [(t2, tg)])) \<and>
           (t2 \<le> current_engine_time g \<longrightarrow>
              (\<exists>s2. schedule MIN_DT MAX_DT ndx t2 (Some tg) (s1, g1) = Inr (s2, g1) \<and>
                     entries_of tg s2 = []))"
proof -
  from schedule_future_indexed[OF assms, of MIN_DT MAX_DT ndx] obtain s1 g1 where
    a: "schedule MIN_DT MAX_DT ndx t1 (Some tg) (s, g) = Inr (s1, g1)" and
    i: "tag_indexed tg s1" and c: "current_engine_time g1 = current_engine_time g" by blast
  have f: "\<exists>s2 g2. schedule MIN_DT MAX_DT ndx t2 (Some tg) (s1, g1) = Inr (s2, g2) \<and>
                   entries_of tg s2 = [(t2, tg)]" if "t2 > current_engine_time g"
  proof -
    from that c have "t2 > current_engine_time g1" by simp
    from schedule_future[OF i this, of MIN_DT MAX_DT ndx] show ?thesis by blast
  qed
  have p: "\<exists>s2. schedule MIN_DT MAX_DT ndx t2 (Some tg) (s1, g1) = Inr (s2, g1) \<and>
                entries_of tg s2 = []" if "t2 \<le> current_engine_time g"
  proof -
    from that c have "t2 \<le> current_engine_time g1" by simp
    from schedule_past[OF i this, of MIN_DT MAX_DT ndx] show ?thesis by blast
  qed
  from a f p show ?thesis by blast
qed

theorem reschedule_same_tag_witness:
  "tag_indexed ''a'' fresh_scheduler \<and> 20 > current_engine_time (graph_at 10) \<and>
   (\<exists>s1 g1.
      schedule 0 100 0 20 (Some ''a'') (fresh_scheduler, graph_at 10) = Inr (s1, g1) \<and>
      30 > current_engine_time (graph_at 10) \<and>
      (\<exists>s2 g2. schedule 0 100 0 30 (Some ''a'') (s1, g1) = Inr (s2, g2) \<and>
                entries_of ''a'' s2 = [(30, ''a'')])) \<and>
   (\<exists>s1 g1.
      schedule 0 100 0 20 (Some ''a'') (fresh_scheduler, graph_at 10) = Inr (s1, g1) \<and>
      5 \<le> current_engine_time (graph_at 10) \<and>
      (\<exists>s2. schedule 0 100 0 5 (Some ''a'') (s1, g1) = Inr (s2, g1) \<and>
             entries_of ''a'' s2 = []))"
proof -
  have a: "tag_indexed ''a'' fresh_scheduler"
    by (simp add: tag_indexed_def fresh_scheduler_def entries_of_def)
  have b: "20 > current_engine_time (graph_at 10)"
    and c: "30 > current_engine_time (graph_at 10)"
    and d: "5 \<le> current_engine_time (graph_at 10)"
    by (simp_all add: graph_at_def)
  from reschedule_same_tag[OF a b, of 0 100 0 30] c
  have t1: "\<exists>s1 g1.
      schedule 0 100 0 20 (Some ''a'') (fresh_scheduler, graph_at 10) = Inr (s1, g1) \<and>
      30 > current_engine_time (graph_at 10) \<and>
      (\<exists>s2 g2. schedule 0 100 0 30 (Some ''a'') (s1, g1) = Inr (s2, g2) \<and>
                entries_of ''a'' s2 = [(30, ''a'')])"
    by blast
  from reschedule_same_tag[OF a b, of 0 100 0 5] d
  have t2: "\<exists>s1 g1.
      schedule 0 100 0 20 (Some ''a'') (fresh_scheduler, graph_at 10) = Inr (s1, g1) \<and>
      5 \<le> current_engine_time (graph_at 10) \<and>
      (\<exists>s2. schedule 0 100 0 5 (Some ''a'') (s1, g1) = Inr (s2, g1) \<and>
             entries_of ''a'' s2 = [])"
    by blast
  from a b t1 t2 show ?thesis by blast
qed

text \<open>
  C3 as stated, for any two times, fails: at engine time 10, \<open>schedule(20, 'a')\<close> and then
  \<open>schedule(5, 'a')\<close> on a fresh scheduler. The second call removes the entry of the first
  and, 5 not being after 10, adds none: no entry carries the tag.
\<close>

theorem reschedule_into_past_counterexample:
  "schedule 0 100 0 20 (Some ''a'') (fresh_scheduler, graph_at 10) =
     Inr (\<lparr>scheduled_events = [(20, ''a'')], tags = [Some ''a'' \<mapsto> 20]\<rparr>,
          \<lparr>current_engine_time = 10, push_has_pending_values = False,
             schedule_node_calls = [(0, 20)]\<rparr>) \<and>
   schedule 0 100 0 5 (Some ''a'')
       (\<lparr>scheduled_events = [(20, ''a'')], tags = [Some ''a'' \<mapsto> 20]\<rparr>,
        \<lparr>current_engine_time = 10, push_has_pending_values = False,
           schedule_node_calls = [(0, 20)]\<rparr>) =
     Inr (\<lparr>scheduled_events = [], tags = [Some ''a'' \<mapsto> 20]\<rparr>,
          \<lparr>current_engine_time = 10, push_has_pending_values = False,
             schedule_node_calls = [(0, 20)]\<rparr>) \<and>
   entries_of ''a'' \<lparr>scheduled_events = [], tags = [Some ''a'' \<mapsto> 20]\<rparr> = []"
  by (simp add: schedule_def remove_tagged_def fresh_scheduler_def graph_at_def Let_def
        next_scheduled_time_def schedule_node_def entries_of_def)

text \<open>
  C10. With no scheduled events \<open>next_scheduled_time\<close> is \<open>MIN_DT\<close> (so it is not
  \<open>MAX_DT\<close>, the two sentinels being different); with events, the list being sorted as
  the operations above keep it, it is the time of an entry and no entry is earlier.
\<close>

theorem next_scheduled_time_head:
  "(scheduled_events s = [] \<longrightarrow>
      next_scheduled_time MIN_DT s = MIN_DT \<and>
      (MIN_DT \<noteq> MAX_DT \<longrightarrow> next_scheduled_time MIN_DT s \<noteq> MAX_DT)) \<and>
   (scheduled_events s \<noteq> [] \<and> sorted (scheduled_events s) \<longrightarrow>
      next_scheduled_time MIN_DT s \<in> fst ` set (scheduled_events s) \<and>
      (\<forall>e\<in>set (scheduled_events s). next_scheduled_time MIN_DT s \<le> fst e))"
  by (cases "scheduled_events s") (auto simp: next_scheduled_time_def less_eq_prod_def)

theorem next_scheduled_time_head_witness:
  "scheduled_events fresh_scheduler = [] \<and> (0::time) \<noteq> 100 \<and>
   next_scheduled_time 0 fresh_scheduler = 0 \<and> next_scheduled_time 0 fresh_scheduler \<noteq> 100 \<and>
   scheduled_events two_events \<noteq> [] \<and> sorted (scheduled_events two_events) \<and>
   next_scheduled_time 0 two_events = 3 \<and> next_scheduled_time 0 two_events \<le> 5"
  using next_scheduled_time_head[of fresh_scheduler 0 100]
        next_scheduled_time_head[of two_events 0 100]
  by (simp add: fresh_scheduler_def two_events_def less_eq_prod_def next_scheduled_time_def)

section \<open>Properties of \<open>NodeImpl.eval\<close>\<close>

lemma all_valid_True_iff:
  "all_valid inp ks = Inr True \<longleftrightarrow> (\<forall>k\<in>set ks. \<exists>ts. inp k = Some ts \<and> valid ts)"
  by (induction ks) (auto split: option.splits)

lemma all_valid_invalid:
  "\<exists>k\<in>set ks. \<exists>ts. inp k = Some ts \<and> \<not> valid ts \<Longrightarrow>
     all_valid inp ks = Inr False \<or> all_valid inp ks = Inl KeyError"
  by (induction ks) (auto split: option.splits)

lemma all_valid_invalid_dom:
  "\<exists>k\<in>set ks. \<exists>ts. inp k = Some ts \<and> \<not> valid ts \<Longrightarrow> set ks \<subseteq> dom inp \<Longrightarrow>
     all_valid inp ks = Inr False"
  by (induction ks) (auto split: option.splits)

text \<open>
  C1. A node with an input bundle, one of whose inputs named in \<open>V\<close> is not valid:
  \<open>eval\<close> comes back with the node as it was, for every user function, so the user
  function was not called (\<open>eval_fn_calls\<close> is unchanged) and nothing was applied to
  the output. When \<open>V\<close> names only inputs of the bundle, \<open>eval\<close> returns; a name of
  \<open>V\<close> that the bundle lacks and that comes before the first invalid input makes
  \<open>self.input[k]\<close> raise \<open>KeyError\<close> instead, with the same unchanged node.
\<close>

theorem eval_skips_on_invalid_input:
  assumes "node_input n = Some inp"
      and "\<exists>k\<in>set (valid_args n). \<exists>ts. inp k = Some ts \<and> \<not> valid ts"
  shows "(node_eval eval_fn n = Inr n \<or> node_eval eval_fn n = Inl (KeyError, n)) \<and>
         (set (valid_args n) \<subseteq> dom inp \<longrightarrow> node_eval eval_fn n = Inr n)"
proof -
  from assms(2) have
    "all_valid inp (valid_args n) = Inr False \<or> all_valid inp (valid_args n) = Inl KeyError"
    by (rule all_valid_invalid)
  then have g: "input_gate n sch = Inr False \<or> input_gate n sch = Inl KeyError" for sch
    using assms(1) by (auto simp: input_gate_def)
  have d: "set (valid_args n) \<subseteq> dom inp \<Longrightarrow> input_gate n sch = Inr False" for sch
    using assms all_valid_invalid_dom[of "valid_args n" inp] by (simp add: input_gate_def)
  from g[of "scheduled n"] d[of "scheduled n"] show ?thesis
    by (auto simp: node_eval_def)
qed

theorem eval_skips_on_invalid_input_witness:
  "node_input stale_node = Some stale_input \<and> valid_args stale_node = [''ts''] \<and>
   stale_input ''ts'' = Some \<lparr>valid = False, modified = False\<rparr> \<and>
   node_eval returns_none stale_node = Inr stale_node"
proof -
  have a: "node_input stale_node = Some stale_input"
    by (simp add: stale_node_def idle_node_def)
  have v: "valid_args stale_node = [''ts'']"
    by (simp add: valid_args_def stale_node_def idle_node_def)
  have b: "\<exists>k\<in>set (valid_args stale_node). \<exists>ts. stale_input k = Some ts \<and> \<not> valid ts"
    by (simp add: v stale_input_def)
  have c: "set (valid_args stale_node) \<subseteq> dom stale_input"
    by (simp add: v stale_input_def)
  from eval_skips_on_invalid_input[OF a b, of returns_none] c
  have "node_eval returns_none stale_node = Inr stale_node" by blast
  with a v show ?thesis
    by (simp add: stale_input_def)
qed

text \<open>
  C2, as the code has it. The test that something caused the evaluation is made only
  for a node that has a scheduler. A node that has none and whose inputs named in \<open>V\<close> are
  all valid calls its user function, whether or not any of them is modified: \<open>eval\<close>
  is the call of the user function (counted in \<open>eval_fn_calls\<close>) followed by
  \<open>apply_result\<close> of what it returns.
\<close>

theorem eval_without_scheduler_calls_eval_fn:
  assumes "node_input n = Some inp" and "scheduler n = None"
      and "\<forall>k\<in>set (valid_args n). \<exists>ts. inp k = Some ts \<and> valid ts"
  shows "node_eval eval_fn n =
           (case eval_fn (n\<lparr>eval_fn_calls := eval_fn_calls n + 1\<rparr>) of
              Inl en \<Rightarrow> Inl en
            | Inr (out, n1) \<Rightarrow> (case out of None \<Rightarrow> Inr n1 | Some v \<Rightarrow> apply_result v n1))"
  using assms all_valid_True_iff[of inp "valid_args n"]
  by (auto simp: node_eval_def input_gate_def scheduled_def call_eval_fn_def
      split: sum.splits option.splits)

theorem eval_without_scheduler_calls_eval_fn_witness:
  "node_input idle_node = Some idle_input \<and> scheduler idle_node = None \<and>
   valid_args idle_node = [''ts''] \<and>
   idle_input ''ts'' = Some \<lparr>valid = True, modified = False\<rparr> \<and>
   node_eval returns_none idle_node = Inr (idle_node\<lparr>eval_fn_calls := 1\<rparr>)"
proof -
  have a: "node_input idle_node = Some idle_input" and b: "scheduler idle_node = None"
    by (simp_all add: idle_node_def)
  have v: "valid_args idle_node = [''ts'']"
    by (simp add: valid_args_def idle_node_def)
  have c: "\<forall>k\<in>set (valid_args idle_node). \<exists>ts. idle_input k = Some ts \<and> valid ts"
    by (simp add: v idle_input_def)
  from eval_without_scheduler_calls_eval_fn[OF a b c, of returns_none] a b v show ?thesis
    by (simp add: returns_none_def idle_input_def idle_node_def)
qed

text \<open>
  C2 as stated fails on a node without a scheduler: \<open>idle_node\<close> is not scheduled by a
  scheduler, its only input is valid and not modified, and \<open>eval\<close> calls the user
  function once.
\<close>

theorem eval_unmodified_counterexample:
  "node_input idle_node = Some idle_input \<and> scheduled idle_node = False \<and>
   valid_args idle_node = [''ts''] \<and>
   idle_input ''ts'' = Some \<lparr>valid = True, modified = False\<rparr> \<and>
   node_eval returns_none idle_node = Inr (idle_node\<lparr>eval_fn_calls := 1\<rparr>) \<and>
   node_eval returns_none idle_node \<noteq> Inr idle_node"
  by (simp add: idle_node_def idle_input_def node_eval_def input_gate_def scheduled_def
        valid_args_def call_eval_fn_def returns_none_def)

text \<open>
  For a node that has a scheduler and is not scheduled now, the test reads \<open>valid\<close>, not
  \<open>modified\<close>: with every input of \<open>V\<close> valid it never stops the evaluation. The same
  node with an empty scheduler calls the user function as well.
\<close>

lemma eval_gate_reads_valid:
  "scheduled idle_scheduler_node = False \<and>
   node_eval returns_none idle_scheduler_node = Inr (idle_scheduler_node\<lparr>eval_fn_calls := 1\<rparr>)"
  by (simp add: idle_scheduler_node_def idle_node_def idle_input_def node_eval_def
        input_gate_def scheduled_def valid_args_def call_eval_fn_def returns_none_def
        is_scheduled_now_def)

section \<open>Properties of the push-queue node\<close>

lemma stopped_at_after_call: "stopped_at a w \<Longrightarrow> stopped_at a (after_call c w)"
  apply (cases c)
      apply (auto simp: stopped_at_def push_queue_start_def push_queue_eval_def
        push_queue_stop_def enqueue_def dequeue_def state_of_def Let_def nth_append
        nth_list_update split: option.splits sum.splits list.splits if_splits)
  done

lemma stopped_at_fold: "stopped_at a w \<Longrightarrow> stopped_at a (fold after_call cs w)"
  by (induction cs arbitrary: w) (auto simp: stopped_at_after_call)

lemma stop_stops:
  "receiver w = Some a \<Longrightarrow> push_queue_stop w = Inr w' \<Longrightarrow> stopped_at a w'"
  by (auto simp: push_queue_stop_def stopped_at_def split: if_splits)

lemma enqueue_stopped: "stopped_at a w \<Longrightarrow> enqueue a v w = Inl (RuntimeError, w)"
  by (simp add: enqueue_def stopped_at_def)

lemma running_at_after_call:
  "running_at a w \<Longrightarrow> c \<noteq> Stop \<Longrightarrow> running_at a (after_call c w)"
  apply (cases c)
      apply (auto simp: running_at_def push_queue_start_def push_queue_eval_def
        enqueue_def dequeue_def state_of_def Let_def nth_append nth_list_update
        split: option.splits sum.splits list.splits if_splits)
  done

lemma running_at_fold:
  "running_at a w \<Longrightarrow> Stop \<notin> set cs \<Longrightarrow> running_at a (fold after_call cs w)"
  by (induction cs arbitrary: w) (auto simp: running_at_after_call)

lemma start_running: "push_queue_start w = (a, w1) \<Longrightarrow> running_at a w1 \<and> receiver w1 = Some a"
  by (auto simp: push_queue_start_def running_at_def)

lemma enqueue_running:
  "running_at a w \<Longrightarrow>
     enqueue a v w =
       Inr (w\<lparr>receivers :=
                (receivers w)[a := (receivers w ! a)\<lparr>queue := queue (receivers w ! a) @ [v]\<rparr>],
              pq_graph := (pq_graph w)\<lparr>push_has_pending_values := True\<rparr>\<rparr>)"
  by (simp add: enqueue_def running_at_def Let_def mark_push_has_pending_values_def)

text \<open>
  C7. Once \<open>stop\<close> has run on a node whose receiver is at address \<open>a\<close>, then after any
  further calls \<open>cs\<close> (of the engine or of senders) \<open>enqueue\<close> through \<open>a\<close> raises
  \<open>RuntimeError\<close> and the state at the raise is the state before the call: nothing was
  appended and the flag was not touched. Between \<open>start\<close>, which creates the receiver at
  \<open>a\<close>, and the next \<open>stop\<close>, \<open>enqueue\<close> through \<open>a\<close> returns, having appended the
  value to that receiver's queue and set \<open>push_has_pending_values\<close>.
\<close>

theorem enqueue_after_stop:
  "(receiver w = Some a \<and> push_queue_stop w = Inr w' \<longrightarrow>
      enqueue a v (fold after_call cs w') = Inl (RuntimeError, fold after_call cs w')) \<and>
   (push_queue_start w = (a, w1) \<and> Stop \<notin> set cs \<and> w2 = fold after_call cs w1 \<longrightarrow>
      enqueue a v w2 =
        Inr (w2\<lparr>receivers :=
                  (receivers w2)[a := (receivers w2 ! a)\<lparr>queue := queue (receivers w2 ! a) @ [v]\<rparr>],
                pq_graph := (pq_graph w2)\<lparr>push_has_pending_values := True\<rparr>\<rparr>))"
proof (intro conjI impI)
  assume "receiver w = Some a \<and> push_queue_stop w = Inr w'"
  then have "stopped_at a w'" by (auto intro: stop_stops)
  then have "stopped_at a (fold after_call cs w')" by (rule stopped_at_fold)
  then show "enqueue a v (fold after_call cs w') = Inl (RuntimeError, fold after_call cs w')"
    by (rule enqueue_stopped)
next
  assume h: "push_queue_start w = (a, w1) \<and> Stop \<notin> set cs \<and> w2 = fold after_call cs w1"
  then have "running_at a w1" using start_running by blast
  with h have "running_at a w2" by (simp add: running_at_fold)
  then show "enqueue a v w2 =
        Inr (w2\<lparr>receivers :=
                  (receivers w2)[a := (receivers w2 ! a)\<lparr>queue := queue (receivers w2 ! a) @ [v]\<rparr>],
                pq_graph := (pq_graph w2)\<lparr>push_has_pending_values := True\<rparr>\<rparr>)"
    by (rule enqueue_running)
qed

theorem enqueue_after_stop_witness:
  "receiver started_push_node = Some 0 \<and>
   push_queue_stop started_push_node =
     Inr (started_push_node\<lparr>receivers := [\<lparr>queue = [], stopped = True\<rparr>], receiver := None\<rparr>) \<and>
   enqueue 0 (Some 5)
     (fold after_call [Eval, Enqueue 0 (Some 4)]
        (started_push_node\<lparr>receivers := [\<lparr>queue = [], stopped = True\<rparr>], receiver := None\<rparr>)) =
     Inl (RuntimeError, started_push_node\<lparr>receivers := [\<lparr>queue = [], stopped = True\<rparr>], receiver := None\<rparr>) \<and>
   push_queue_start new_push_node = (0, started_push_node) \<and>
   Stop \<noteq> Enqueue 0 (Some (4::nat)) \<and>
   enqueue 0 (Some 5) (fold after_call [Enqueue 0 (Some 4)] started_push_node) =
     Inr (started_push_node\<lparr>receivers := [\<lparr>queue = [Some 4, Some 5], stopped = False\<rparr>],
            pq_graph := (graph_at 0)\<lparr>push_has_pending_values := True\<rparr>\<rparr>)"
proof -
  let ?s = "started_push_node\<lparr>receivers := [\<lparr>queue = [], stopped = True\<rparr>], receiver := None\<rparr>"
  have a: "receiver started_push_node = Some 0" by (simp add: started_push_node_def)
  have b: "push_queue_stop started_push_node = Inr ?s"
    by (simp add: started_push_node_def push_queue_stop_def)
  have c: "push_queue_start new_push_node = (0, started_push_node)"
    by (simp add: push_queue_start_def new_push_node_def started_push_node_def)
  have d: "Stop \<notin> set [Enqueue 0 (Some (4::nat))]" by simp
  have f1: "fold after_call [Eval, Enqueue 0 (Some 4)] ?s = ?s"
    by (simp add: started_push_node_def push_queue_eval_def enqueue_def state_of_def)
  have f2: "fold after_call [Enqueue 0 (Some 4)] started_push_node =
      started_push_node\<lparr>receivers := [\<lparr>queue = [Some 4], stopped = False\<rparr>],
            pq_graph := (graph_at 0)\<lparr>push_has_pending_values := True\<rparr>\<rparr>"
    by (simp add: started_push_node_def enqueue_def state_of_def mark_push_has_pending_values_def)
  have t1: "enqueue 0 (Some 5) (fold after_call [Eval, Enqueue 0 (Some 4)] ?s) =
            Inl (RuntimeError, fold after_call [Eval, Enqueue 0 (Some 4)] ?s)"
    using enqueue_after_stop[where w = started_push_node and a = 0 and w' = ?s
        and v = "Some 5" and cs = "[Eval, Enqueue 0 (Some 4)]"] a b by blast
  have t2: "enqueue 0 (Some 5) (fold after_call [Enqueue 0 (Some 4)] started_push_node) =
        Inr ((fold after_call [Enqueue 0 (Some 4)] started_push_node)
             \<lparr>receivers := (receivers (fold after_call [Enqueue 0 (Some 4)] started_push_node))
                 [0 := (receivers (fold after_call [Enqueue 0 (Some 4)] started_push_node) ! 0)
                    \<lparr>queue := queue (receivers (fold after_call [Enqueue 0 (Some 4)] started_push_node) ! 0) @ [Some 5]\<rparr>],
              pq_graph := (pq_graph (fold after_call [Enqueue 0 (Some 4)] started_push_node))\<lparr>push_has_pending_values := True\<rparr>\<rparr>)"
    using enqueue_after_stop[where w = new_push_node and a = 0 and ?w1.0 = started_push_node
        and v = "Some 5" and cs = "[Enqueue 0 (Some 4)]"
        and ?w2.0 = "fold after_call [Enqueue 0 (Some 4)] started_push_node"] c d by blast
  show ?thesis
    using a b c t1 t2 unfolding f1 f2 by (simp add: started_push_node_def)
qed

section \<open>Properties of the generator node\<close>

lemma generator_eval_due:
  assumes "generator n = Some ((Some t, Some v) # rest)"
      and "t \<le> current_engine_time (gen_graph n)" and "gen_output n = Some log"
  shows "generator_eval (Suc frames) n =
           generator_eval frames
             (n\<lparr>generator := Some rest,
                gen_output := Some (log @ [(current_engine_time (gen_graph n), v)]),
                next_value := None\<rparr>)"
  using assms by (simp add: due_def)

lemma generator_eval_future:
  assumes "generator n = Some ((Some t, Some v) # rest)"
      and "t > current_engine_time (gen_graph n)"
  shows "next_value n = None \<longrightarrow>
           generator_eval (Suc frames) n =
             Inr (n\<lparr>generator := Some rest, next_value := Some v,
                    gen_graph := schedule_node (gen_ndx n) t (gen_graph n)\<rparr>)"
    and "next_value n = Some c \<and> gen_output n = Some log \<longrightarrow>
           generator_eval (Suc frames) n =
             Inr (n\<lparr>generator := Some rest,
                    gen_output := Some (log @ [(current_engine_time (gen_graph n), c)]),
                    next_value := Some v,
                    gen_graph := schedule_node (gen_ndx n) t (gen_graph n)\<rparr>)"
  using assms by (simp_all add: due_def gen_settle_def gen_apply_result_def)

lemma generator_eval_no_pair:
  assumes "generator n = Some [] \<and> rest = [] \<or>
           generator n = Some (p # rest) \<and> (fst p = None \<or> snd p = None)"
  shows "next_value n = None \<longrightarrow>
           generator_eval (Suc frames) n = Inr (n\<lparr>generator := Some rest\<rparr>)"
    and "next_value n = Some c \<and> gen_output n = Some log \<longrightarrow>
           generator_eval (Suc frames) n =
             Inr (n\<lparr>generator := Some rest,
                    gen_output := Some (log @ [(current_engine_time (gen_graph n), c)]),
                    next_value := None\<rparr>)"
  using assms
  by (auto simp: due_def gen_settle_def gen_apply_result_def split: option.splits prod.splits)

text \<open>
  With an output, \<open>eval\<close> returns when the interpreter allows more nested calls than the
  generator has due pairs in a row.
\<close>

lemma generator_eval_returns:
  assumes "generator n = Some g" and "gen_output n \<noteq> None"
      and "length (takeWhile (due (current_engine_time (gen_graph n))) g) < frames"
  shows "\<exists>n'. generator_eval frames n = Inr n'"
  using assms
proof (induction frames arbitrary: n g)
  case 0
  then show ?case by simp
next
  case (Suc frames)
  from Suc.prems(2) obtain log where o: "gen_output n = Some log" by auto
  show ?case
  proof (cases g)
    case Nil
    with Suc.prems(1) o show ?thesis
      by (auto simp: gen_settle_def gen_apply_result_def split: option.splits)
  next
    case (Cons p rest)
    show ?thesis
    proof (cases "due (current_engine_time (gen_graph n)) p")
      case False
      with Cons Suc.prems(1) o show ?thesis
        by (auto simp: gen_settle_def gen_apply_result_def split: option.splits)
    next
      case True
      let ?n1 = "n\<lparr>generator := Some rest,
                    gen_output := Some (log @ [(current_engine_time (gen_graph n), the (snd p))]),
                    next_value := None\<rparr>"
      from True Cons Suc.prems(3)
      have "length (takeWhile (due (current_engine_time (gen_graph ?n1))) rest) < frames"
        by simp
      from Suc.IH[of ?n1 rest, OF _ _ this]
      obtain n' where "generator_eval frames ?n1 = Inr n'" by auto
      with True Cons Suc.prems(1) o show ?thesis by simp
    qed
  qed
qed

text \<open>
  C8, as the code has it. Called with no nested call left, \<open>eval\<close> raises
  \<open>RecursionError\<close>; otherwise, \<open>frames\<close> being the nested calls left after this one:

  \<^item> An \<open>eval\<close> that pulls \<open>(t, v)\<close> with \<open>t\<close> not after the engine time applies \<open>v\<close>
    to the output, clears \<open>next_value\<close> without applying it, and is the nested \<open>eval\<close>
    of the node so changed.
  \<^item> An \<open>eval\<close> that pulls \<open>(t, v)\<close> with \<open>t\<close> in the future first applies the cached
    value, if there is one, at the engine time, then caches \<open>v\<close> in \<open>next_value\<close> and
    calls \<open>schedule_node\<close> for \<open>t\<close>; nothing else of the node changes.
  \<^item> An \<open>eval\<close> that finds the generator exhausted, or pulls a pair with a \<open>None\<close> in
    it, applies the cached value, if there is one, and leaves \<open>next_value\<close> empty; it
    schedules nothing.
  \<^item> \<open>eval\<close> returns when the node has an output and the generator has fewer due
    pairs in a row than nested calls are allowed.
  \<^item> \<open>start\<close> installs the generator and calls \<open>schedule_node\<close> for the current
    engine time.
\<close>

theorem generator_eval_steps:
  "generator_eval 0 n = Inl (RecursionError, n) \<and>
   (generator n = Some ((Some t, Some v) # rest) \<and> t \<le> current_engine_time (gen_graph n) \<and>
    gen_output n = Some log \<longrightarrow>
      generator_eval (Suc frames) n =
        generator_eval frames
          (n\<lparr>generator := Some rest,
             gen_output := Some (log @ [(current_engine_time (gen_graph n), v)]),
             next_value := None\<rparr>)) \<and>
   (generator n = Some ((Some t, Some v) # rest) \<and> t > current_engine_time (gen_graph n) \<and>
    next_value n = None \<longrightarrow>
      generator_eval (Suc frames) n =
        Inr (n\<lparr>generator := Some rest, next_value := Some v,
               gen_graph := schedule_node (gen_ndx n) t (gen_graph n)\<rparr>)) \<and>
   (generator n = Some ((Some t, Some v) # rest) \<and> t > current_engine_time (gen_graph n) \<and>
    next_value n = Some c \<and> gen_output n = Some log \<longrightarrow>
      generator_eval (Suc frames) n =
        Inr (n\<lparr>generator := Some rest,
               gen_output := Some (log @ [(current_engine_time (gen_graph n), c)]),
               next_value := Some v,
               gen_graph := schedule_node (gen_ndx n) t (gen_graph n)\<rparr>)) \<and>
   ((generator n = Some [] \<and> rest = [] \<or>
     generator n = Some (p # rest) \<and> (fst p = None \<or> snd p = None)) \<and>
    next_value n = None \<longrightarrow>
      generator_eval (Suc frames) n = Inr (n\<lparr>generator := Some rest\<rparr>)) \<and>
   ((generator n = Some [] \<and> rest = [] \<or>
     generator n = Some (p # rest) \<and> (fst p = None \<or> snd p = None)) \<and>
    next_value n = Some c \<and> gen_output n = Some log \<longrightarrow>
      generator_eval (Suc frames) n =
        Inr (n\<lparr>generator := Some rest,
               gen_output := Some (log @ [(current_engine_time (gen_graph n), c)]),
               next_value := None\<rparr>)) \<and>
   (generator n = Some g \<and> gen_output n = Some log \<and>
    length (takeWhile (due (current_engine_time (gen_graph n))) g) < frames \<longrightarrow>
      (\<exists>n'. generator_eval frames n = Inr n')) \<and>
   generator_start ys n =
     n\<lparr>generator := Some ys,
       gen_graph := (gen_graph n)\<lparr>schedule_node_calls :=
          schedule_node_calls (gen_graph n) @ [(gen_ndx n, current_engine_time (gen_graph n))]\<rparr>\<rparr>"
proof (intro conjI impI)
  show "generator_eval 0 n = Inl (RecursionError, n)" by simp
next
  assume "generator n = Some ((Some t, Some v) # rest) \<and>
      t \<le> current_engine_time (gen_graph n) \<and> gen_output n = Some log"
  then show "generator_eval (Suc frames) n =
        generator_eval frames
          (n\<lparr>generator := Some rest,
             gen_output := Some (log @ [(current_engine_time (gen_graph n), v)]),
             next_value := None\<rparr>)"
    using generator_eval_due[of n t v rest log frames] by blast
next
  assume "generator n = Some ((Some t, Some v) # rest) \<and>
      t > current_engine_time (gen_graph n) \<and> next_value n = None"
  then show "generator_eval (Suc frames) n =
        Inr (n\<lparr>generator := Some rest, next_value := Some v,
               gen_graph := schedule_node (gen_ndx n) t (gen_graph n)\<rparr>)"
    using generator_eval_future(1)[of n t v rest frames] by simp
next
  assume "generator n = Some ((Some t, Some v) # rest) \<and>
      t > current_engine_time (gen_graph n) \<and> next_value n = Some c \<and> gen_output n = Some log"
  then show "generator_eval (Suc frames) n =
        Inr (n\<lparr>generator := Some rest,
               gen_output := Some (log @ [(current_engine_time (gen_graph n), c)]),
               next_value := Some v,
               gen_graph := schedule_node (gen_ndx n) t (gen_graph n)\<rparr>)"
    using generator_eval_future(2)[of n t v rest c log frames] by simp
next
  assume "(generator n = Some [] \<and> rest = [] \<or>
     generator n = Some (p # rest) \<and> (fst p = None \<or> snd p = None)) \<and> next_value n = None"
  then show "generator_eval (Suc frames) n = Inr (n\<lparr>generator := Some rest\<rparr>)"
    using generator_eval_no_pair(1)[of n rest p frames] by simp
next
  assume "(generator n = Some [] \<and> rest = [] \<or>
     generator n = Some (p # rest) \<and> (fst p = None \<or> snd p = None)) \<and>
    next_value n = Some c \<and> gen_output n = Some log"
  then show "generator_eval (Suc frames) n =
        Inr (n\<lparr>generator := Some rest,
               gen_output := Some (log @ [(current_engine_time (gen_graph n), c)]),
               next_value := None\<rparr>)"
    using generator_eval_no_pair(2)[of n rest p c log frames] by simp
next
  assume "generator n = Some g \<and> gen_output n = Some log \<and>
    length (takeWhile (due (current_engine_time (gen_graph n))) g) < frames"
  then show "\<exists>n'. generator_eval frames n = Inr n'"
    using generator_eval_returns[of n g frames] by simp
next
  show "generator_start ys n =
     n\<lparr>generator := Some ys,
       gen_graph := (gen_graph n)\<lparr>schedule_node_calls :=
          schedule_node_calls (gen_graph n) @ [(gen_ndx n, current_engine_time (gen_graph n))]\<rparr>\<rparr>"
    by (simp add: generator_start_def schedule_node_def)
qed

theorem generator_eval_steps_witness:
  "generator gen_due_node = Some [(Some 5, Some 2)] \<and>
   5 \<le> current_engine_time (gen_graph gen_due_node) \<and> gen_output gen_due_node = Some [] \<and>
   generator_eval 2 gen_due_node =
     generator_eval 1 (gen_due_node\<lparr>generator := Some [], gen_output := Some [(5, 2)],
                                    next_value := None\<rparr>) \<and>
   generator gen_future_node = Some [(Some 5, Some 1)] \<and>
   5 > current_engine_time (gen_graph gen_future_node) \<and> next_value gen_future_node = None \<and>
   generator_eval 1 gen_future_node =
     Inr (gen_future_node\<lparr>generator := Some [], next_value := Some 1,
            gen_graph := (graph_at 0)\<lparr>schedule_node_calls := [(0, 5)]\<rparr>\<rparr>) \<and>
   generator gen_cached_node = Some [(Some 6, Some 2)] \<and>
   6 > current_engine_time (gen_graph gen_cached_node) \<and>
   next_value gen_cached_node = Some 1 \<and> gen_output gen_cached_node = Some [] \<and>
   generator_eval 1 gen_cached_node =
     Inr (gen_cached_node\<lparr>generator := Some [], gen_output := Some [(5, 1)],
            next_value := Some 2,
            gen_graph := (graph_at 5)\<lparr>schedule_node_calls := [(0, 6)]\<rparr>\<rparr>) \<and>
   generator (gen_future_node\<lparr>generator := Some []\<rparr>) = Some [] \<and>
   generator_eval 1 (gen_future_node\<lparr>generator := Some []\<rparr>) =
     Inr (gen_future_node\<lparr>generator := Some []\<rparr>) \<and>
   generator gen_null_node = Some [(Some 6, None), (Some 7, Some 3)] \<and>
   next_value gen_null_node = Some 1 \<and> gen_output gen_null_node = Some [] \<and>
   generator_eval 1 gen_null_node =
     Inr (gen_null_node\<lparr>generator := Some [(Some 7, Some 3)], gen_output := Some [(5, 1)],
            next_value := None\<rparr>) \<and>
   generator gen_two_due_node = Some [(Some 4, Some 1), (Some 5, Some 2)] \<and>
   gen_output gen_two_due_node = Some [] \<and>
   length (takeWhile (due (current_engine_time (gen_graph gen_two_due_node)))
             [(Some 4, Some (1::nat)), (Some 5, Some 2)]) < 3 \<and>
   (\<exists>n'. generator_eval 3 gen_two_due_node = Inr n')"
proof -
  have d: "generator gen_due_node = Some [(Some 5, Some 2)]"
      "5 \<le> current_engine_time (gen_graph gen_due_node)" "gen_output gen_due_node = Some []"
    by (simp_all add: gen_due_node_def graph_at_def)
  have f: "generator gen_future_node = Some [(Some 5, Some 1)]"
      "5 > current_engine_time (gen_graph gen_future_node)" "next_value gen_future_node = None"
    by (simp_all add: gen_future_node_def graph_at_def)
  have c: "generator gen_cached_node = Some [(Some 6, Some 2)]"
      "6 > current_engine_time (gen_graph gen_cached_node)"
      "next_value gen_cached_node = Some 1" "gen_output gen_cached_node = Some []"
    by (simp_all add: gen_cached_node_def graph_at_def)
  have e: "generator (gen_future_node\<lparr>generator := Some []\<rparr>) = Some []"
      "next_value (gen_future_node\<lparr>generator := Some []\<rparr>) = None"
    by (simp_all add: gen_future_node_def)
  have u: "generator gen_null_node = Some [(Some 6, None), (Some 7, Some 3)]"
      "next_value gen_null_node = Some 1" "gen_output gen_null_node = Some []"
    by (simp_all add: gen_null_node_def gen_cached_node_def)
  have w: "generator gen_two_due_node = Some [(Some 4, Some 1), (Some 5, Some 2)]"
      "gen_output gen_two_due_node = Some []"
      "length (takeWhile (due (current_engine_time (gen_graph gen_two_due_node)))
             [(Some 4, Some (1::nat)), (Some 5, Some 2)]) < 3"
    by (simp_all add: gen_two_due_node_def graph_at_def due_def)
  have t1: "generator_eval (Suc 1) gen_due_node =
     generator_eval 1 (gen_due_node\<lparr>generator := Some [],
        gen_output := Some ([] @ [(current_engine_time (gen_graph gen_due_node), 2)]),
        next_value := None\<rparr>)"
    using generator_eval_steps[where n = gen_due_node and t = 5 and v = 2 and rest = "[]"
        and log = "[]" and frames = 1] d
    by blast
  have t2: "generator_eval (Suc 0) gen_future_node =
     Inr (gen_future_node\<lparr>generator := Some [], next_value := Some 1,
            gen_graph := schedule_node (gen_ndx gen_future_node) 5 (gen_graph gen_future_node)\<rparr>)"
    using generator_eval_steps[where n = gen_future_node and t = 5 and v = 1 and rest = "[]"
        and frames = 0] f
    by blast
  have t3: "generator_eval (Suc 0) gen_cached_node =
     Inr (gen_cached_node\<lparr>generator := Some [],
            gen_output := Some ([] @ [(current_engine_time (gen_graph gen_cached_node), 1)]),
            next_value := Some 2,
            gen_graph := schedule_node (gen_ndx gen_cached_node) 6 (gen_graph gen_cached_node)\<rparr>)"
    using generator_eval_steps[where n = gen_cached_node and t = 6 and v = 2 and rest = "[]"
        and c = 1 and log = "[]" and frames = 0] c
    by blast
  have t4: "generator_eval (Suc 0) (gen_future_node\<lparr>generator := Some []\<rparr>) =
     Inr (gen_future_node\<lparr>generator := Some [], generator := Some []\<rparr>)"
    using generator_eval_steps[where n = "gen_future_node\<lparr>generator := Some []\<rparr>"
        and rest = "[]" and frames = 0] e
    by blast
  have t5: "generator_eval (Suc 0) gen_null_node =
     Inr (gen_null_node\<lparr>generator := Some [(Some 7, Some 3)],
            gen_output := Some ([] @ [(current_engine_time (gen_graph gen_null_node), 1)]),
            next_value := None\<rparr>)"
    using generator_eval_steps[where n = gen_null_node and p = "(Some 6, None)"
        and rest = "[(Some 7, Some 3)]" and c = 1 and log = "[]" and frames = 0] u
    by simp
  have t6: "\<exists>n'. generator_eval 3 gen_two_due_node = Inr n'"
    using generator_eval_steps[where n = gen_two_due_node
        and g = "[(Some 4, Some 1), (Some 5, Some 2)]" and log = "[]" and frames = 3] w
    by blast
  have s1: "generator_eval 2 gen_due_node =
     generator_eval 1 (gen_due_node\<lparr>generator := Some [], gen_output := Some [(5, 2)],
                                    next_value := None\<rparr>)"
    using t1 by (simp add: gen_due_node_def graph_at_def numeral_2_eq_2)
  have s2: "generator_eval 1 gen_future_node =
     Inr (gen_future_node\<lparr>generator := Some [], next_value := Some 1,
            gen_graph := (graph_at 0)\<lparr>schedule_node_calls := [(0, 5)]\<rparr>\<rparr>)"
    using t2 by (simp add: gen_future_node_def graph_at_def schedule_node_def)
  have s3: "generator_eval 1 gen_cached_node =
     Inr (gen_cached_node\<lparr>generator := Some [], gen_output := Some [(5, 1)],
            next_value := Some 2,
            gen_graph := (graph_at 5)\<lparr>schedule_node_calls := [(0, 6)]\<rparr>\<rparr>)"
    using t3 by (simp add: gen_cached_node_def graph_at_def schedule_node_def)
  have s4: "generator_eval 1 (gen_future_node\<lparr>generator := Some []\<rparr>) =
     Inr (gen_future_node\<lparr>generator := Some []\<rparr>)"
    using t4 by simp
  have s5: "generator_eval 1 gen_null_node =
     Inr (gen_null_node\<lparr>generator := Some [(Some 7, Some 3)], gen_output := Some [(5, 1)],
            next_value := None\<rparr>)"
    using t5 by (simp add: gen_null_node_def gen_cached_node_def graph_at_def)
  from d f c e(1) u w s1 s2 s3 s4 s5 t6 show ?thesis by blast
qed

text \<open>
  With two due pairs in a row and a single nested call allowed, the first pair is
  applied and the nested \<open>eval\<close> raises \<open>RecursionError\<close>.
\<close>

lemma generator_eval_recursion_limit:
  "generator_eval 1 gen_two_due_node =
     Inl (RecursionError,
          gen_two_due_node\<lparr>generator := Some [(Some 5, Some 2)], gen_output := Some [(5, 1)],
                             next_value := None\<rparr>)"
  by (simp add: gen_two_due_node_def graph_at_def due_def)

text \<open>
  C8 as stated fails where it promises that the cached value is applied when its instant
  is evaluated. A generator yields \<open>(5, 1)\<close> and then \<open>(5, 2)\<close>. Started at time 0, the
  first \<open>eval\<close> caches 1 and schedules the node at 5. The \<open>eval\<close> at 5 pulls \<open>(5, 2)\<close>,
  which is due: it applies 2 and clears \<open>next_value\<close>. The value 1 is never applied.
\<close>

theorem generator_cached_value_counterexample:
  "generator_eval 2 (generator_start twice_at_5 new_generator_node) =
     Inr \<lparr>gen_ndx = 0,
          gen_graph = \<lparr>current_engine_time = 0, push_has_pending_values = False,
                       schedule_node_calls = [(0, 0), (0, 5)]\<rparr>,
          gen_output = Some [], generator = Some [(Some 5, Some 2)], next_value = Some 1\<rparr> \<and>
   generator_eval 2
     (at_time 5
        \<lparr>gen_ndx = 0,
         gen_graph = \<lparr>current_engine_time = 0, push_has_pending_values = False,
                      schedule_node_calls = [(0, 0), (0, 5)]\<rparr>,
         gen_output = Some [], generator = Some [(Some 5, Some 2)],
         next_value = Some (1::nat)\<rparr>) =
     Inr \<lparr>gen_ndx = 0,
          gen_graph = \<lparr>current_engine_time = 5, push_has_pending_values = False,
                       schedule_node_calls = [(0, 0), (0, 5)]\<rparr>,
          gen_output = Some [(5, 2)], generator = Some [], next_value = None\<rparr>"
  by (simp add: numeral_2_eq_2 generator_start_def twice_at_5_def
        new_generator_node_def graph_at_def schedule_node_def due_def gen_settle_def
        at_time_def)

section \<open>Properties of the TSD output\<close>

lemma fold_run_callback:
  "fold run_callback cbs s = (if cbs = [] then s else clear_key_changes s)"
proof (induction cbs arbitrary: s)
  case Nil
  then show ?case by simp
next
  case (Cons c cbs)
  then show ?case by (cases c) (simp add: clear_key_changes_def)
qed

text \<open>
  A whole-value assignment that returns has registered \<open>_clear_key_changes\<close> whenever
  it left something in \<open>_removed_items\<close> or \<open>_added_keys\<close>, so both are empty once the
  callbacks of the drain have run.
\<close>

lemma set_value_then_drain_end:
  assumes "set_value v s = Inr s'"
  shows "removed_items (run_after_evaluation s') = [] \<and>
         added_keys (run_after_evaluation s') = {}"
  using assms
  by (auto simp: set_value_def run_after_evaluation_def fold_run_callback clear_key_changes_def
      split: sum.splits if_splits)

text \<open>\<open>__delitem__\<close> of a key that is present fills \<open>_removed_items\<close> and registers nothing.\<close>

lemma delitem_present:
  "ts_values s k = Some child \<Longrightarrow>
     \<exists>s'. delitem k s = Inr s' \<and> map_of (removed_items s') k = Some child \<and>
          after_evaluation_notifications s' = after_evaluation_notifications s"
  by (simp add: delitem_def notify_observers_def update_conv)

text \<open>
  C4 asks that \<open>removed_items\<close> be empty after the after-evaluation callbacks of the
  drain, also when a key was deleted by \<open>__delitem__\<close> directly. On \<open>tsd_one_key\<close>,
  \<open>del tsd[1]\<close> returns with the child in \<open>_removed_items\<close> and with no callback
  registered; running the callbacks of the drain changes nothing, and \<open>_removed_items\<close>
  still holds the key.
\<close>

theorem delitem_leaves_removed_items:
  "delitem 1 tsd_one_key =
     Inr (tsd_one_key\<lparr>ts_values := Map.empty, key_set := {}, removed_items := [(1, Some 10)]\<rparr>) \<and>
   run_after_evaluation
       (tsd_one_key\<lparr>ts_values := Map.empty, key_set := {}, removed_items := [(1, Some 10)]\<rparr>) =
     tsd_one_key\<lparr>ts_values := Map.empty, key_set := {}, removed_items := [(1, Some 10)]\<rparr> \<and>
   removed_items
       (run_after_evaluation
          (tsd_one_key\<lparr>ts_values := Map.empty, key_set := {},
                        removed_items := [(1, Some 10)]\<rparr>)) =
     [(1, Some 10)]"
  by (simp add: delitem_def tsd_one_key_def notify_observers_def run_after_evaluation_def)

lemma set_items_append:
  "set_items (pre @ post) s =
     (case set_items pre s of Inl es \<Rightarrow> Inl es | Inr s1 \<Rightarrow> set_items post s1)"
  by (induction pre s rule: set_items.induct) (auto split: sum.splits)

text \<open>
  C6, as the code has it. For a key \<open>k\<close> that the TSD does not have: \<open>del tsd[k]\<close> raises
  \<open>KeyError\<close> with the TSD unchanged; so does the assignment of a mapping whose first
  entry sends \<open>k\<close> to \<open>REMOVE\<close>; an entry that sends \<open>k\<close> to \<open>REMOVE_IF_EXISTS\<close> is
  skipped, the assignment being that of the remaining entries, and alone it leaves the
  TSD unchanged. When entries \<open>pre\<close> come before \<open>(k, REMOVE)\<close> in the mapping and the
  TSD they leave still lacks \<open>k\<close>, the assignment raises \<open>KeyError\<close> with the TSD as
  \<open>pre\<close> left it: what was applied before the raise stays applied, the entries after
  \<open>k\<close> are not reached.
\<close>

theorem delete_absent_key:
  "(ts_values s k = None \<longrightarrow>
      delitem k s = Inl (KeyError, s) \<and>
      set_value ((k, REMOVE) # post) s = Inl (KeyError, s) \<and>
      set_items ((k, REMOVE_IF_EXISTS) # post) s = set_items post s \<and>
      set_items [(k, REMOVE_IF_EXISTS)] s = Inr s) \<and>
   (set_items pre s = Inr s1 \<and> ts_values s1 k = None \<longrightarrow>
      set_value (pre @ (k, REMOVE) # post) s = Inl (KeyError, s1))"
  by (auto simp: delitem_def set_value_def set_items_append split: option.splits)

theorem delete_absent_key_witness:
  "ts_values tsd_one_key 2 = None \<and>
   delitem 2 tsd_one_key = Inl (KeyError, tsd_one_key) \<and>
   set_value [(2, REMOVE), (1, Value 5)] tsd_one_key = Inl (KeyError, tsd_one_key) \<and>
   set_items [(2, REMOVE_IF_EXISTS)] tsd_one_key = Inr tsd_one_key \<and>
   set_items [(1, Value 5)] tsd_one_key = Inr (tsd_one_key\<lparr>ts_values := [1 \<mapsto> Some 5]\<rparr>) \<and>
   ts_values (tsd_one_key\<lparr>ts_values := [1 \<mapsto> Some 5]\<rparr>) 2 = None \<and>
   set_value [(1, Value 5), (2, REMOVE), (1, Value 6)] tsd_one_key =
     Inl (KeyError, tsd_one_key\<lparr>ts_values := [1 \<mapsto> Some 5]\<rparr>)"
proof -
  have a: "ts_values tsd_one_key 2 = None" by (simp add: tsd_one_key_def)
  have b: "set_items [(1, Value 5)] tsd_one_key = Inr (tsd_one_key\<lparr>ts_values := [1 \<mapsto> Some 5]\<rparr>)"
    by (simp add: tsd_one_key_def get_or_create_def)
  have c: "ts_values (tsd_one_key\<lparr>ts_values := [1 \<mapsto> Some 5]\<rparr>) 2 = None" by simp
  have t1: "delitem 2 tsd_one_key = Inl (KeyError, tsd_one_key) \<and>
      set_value ((2, REMOVE) # [(1, Value 5)]) tsd_one_key = Inl (KeyError, tsd_one_key) \<and>
      set_items [(2, REMOVE_IF_EXISTS)] tsd_one_key = Inr tsd_one_key"
    using delete_absent_key[where s = tsd_one_key and k = 2 and post = "[(1, Value 5)]"] a
    by blast
  have t2: "set_value ([(1, Value 5)] @ (2, REMOVE) # [(1, Value 6)]) tsd_one_key =
      Inl (KeyError, tsd_one_key\<lparr>ts_values := [1 \<mapsto> Some 5]\<rparr>)"
    using delete_absent_key[where s = tsd_one_key and k = 2 and pre = "[(1, Value 5)]"
        and post = "[(1, Value 6)]" and ?s1.0 = "tsd_one_key\<lparr>ts_values := [1 \<mapsto> Some 5]\<rparr>"]
      b c
    by blast
  from a b c t1 t2 show ?thesis by simp
qed

text \<open>
  C6 as stated fails where it says that the existing entries are unchanged when the
  deletion comes from a mapping. \<open>tsd_one_key\<close> has the key 1 and lacks the key 2. The
  assignment of \<open>{1: REMOVE, 2: REMOVE}\<close> removes the entry of 1 and then raises
  \<open>KeyError\<close> for 2: at the raise the entry of 1 is gone.
\<close>

theorem delete_absent_key_counterexample:
  "ts_values tsd_one_key 2 = None \<and> ts_values tsd_one_key 1 = Some (Some 10) \<and>
   set_value [(1, REMOVE), (2, REMOVE)] tsd_one_key =
     Inl (KeyError,
          tsd_one_key\<lparr>ts_values := Map.empty, key_set := {}, removed_items := [(1, Some 10)]\<rparr>) \<and>
   ts_values
     (tsd_one_key\<lparr>ts_values := Map.empty, key_set := {}, removed_items := [(1, Some 10)]\<rparr>) 1 =
     None"
  by (simp add: tsd_one_key_def set_value_def delitem_def notify_observers_def)

section \<open>Properties of references\<close>

text \<open>
  C9, as the code has it. A valid reference whose recorded type \<open>c\<close> is not an output
  class, bound to an input that is not an instance of \<open>c\<close>: \<open>bind_input\<close> raises
  \<open>TypeError\<close> and the input is as it was, not bound. A peer reference binds an input
  that is an instance of \<open>c\<close> to its output. The test is not made for a reference whose
  recorded type is an output class (the reference was built from an output): it binds
  any input. An invalid reference has no recorded type and un-binds the input.
\<close>

theorem bind_input_type_check:
  "(\<not> issubclass c ''TimeSeriesOutput'' \<and> \<not> isinstance i c \<longrightarrow>
      bind_input MIN_DT MIN_ST (Peer_reference (Some c) ou) i g = Inl (TypeError, i, g) \<and>
      bind_input MIN_DT MIN_ST (Items_reference (Some c) rs) i g = Inl (TypeError, i, g)) \<and>
   (isinstance i c \<longrightarrow>
      bind_input MIN_DT MIN_ST (Peer_reference (Some c) ou) i g =
        Inr (bind_output MIN_ST (Some ou) i g)) \<and>
   (issubclass c ''TimeSeriesOutput'' \<longrightarrow>
      bind_input MIN_DT MIN_ST (Peer_reference (Some c) ou) i g =
        Inr (bind_output MIN_ST (Some ou) i g)) \<and>
   bind_input MIN_DT MIN_ST Invalid_reference i g = Inr (bind_output MIN_ST None i g)"
  by (simp add: type_mismatch_def)

theorem bind_input_type_check_witness:
  "issubclass value_input_class ''TimeSeriesOutput'' = False \<and>
   isinstance (unbound_input set_input_class True) value_input_class = False \<and>
   bind_input 0 1 (Peer_reference (Some value_input_class) some_output)
       (unbound_input set_input_class True) (graph_at 7) =
     Inl (TypeError, unbound_input set_input_class True, graph_at 7) \<and>
   isinstance (unbound_input value_input_class True) value_input_class \<and>
   bind_input 0 1 (Peer_reference (Some value_input_class) some_output)
       (unbound_input value_input_class True) (graph_at 7) =
     Inr (Ts_in ((attrs (unbound_input value_input_class True))
                   \<lparr>in_output := Some some_output, sample_time := 7\<rparr>) [],
          graph_at 7) \<and>
   issubclass value_output_class ''TimeSeriesOutput'' \<and>
   bind_input 0 1 (Peer_reference (Some value_output_class) some_output)
       (unbound_input value_input_class True) (graph_at 7) =
     Inr (Ts_in ((attrs (unbound_input value_input_class True))
                   \<lparr>in_output := Some some_output, sample_time := 7\<rparr>) [],
          graph_at 7)"
proof -
  have a: "\<not> issubclass value_input_class ''TimeSeriesOutput''"
    by (simp add: issubclass_def value_input_class_def)
  have b: "\<not> isinstance (unbound_input set_input_class True) value_input_class"
    by (simp add: isinstance_def issubclass_def unbound_input_def set_input_class_def
          value_input_class_def)
  have c: "isinstance (unbound_input value_input_class True) value_input_class"
    by (simp add: isinstance_def issubclass_def unbound_input_def)
  have d: "issubclass value_output_class ''TimeSeriesOutput''"
    by (simp add: issubclass_def value_output_class_def)
  have e: "bind_output 1 (Some some_output) (unbound_input value_input_class True) (graph_at 7) =
      (Ts_in ((attrs (unbound_input value_input_class True))
                \<lparr>in_output := Some some_output, sample_time := 7\<rparr>) [],
       graph_at 7)"
    by (simp add: bind_output_def bound_bind_output_def is_reference_input_def issubclass_def
          unbound_input_def value_input_class_def graph_at_def)
  have t1: "bind_input 0 1 (Peer_reference (Some value_input_class) some_output)
       (unbound_input set_input_class True) (graph_at 7) =
     Inl (TypeError, unbound_input set_input_class True, graph_at 7)"
    using bind_input_type_check[where c = value_input_class
        and i = "unbound_input set_input_class True"] a b by blast
  have t2: "bind_input 0 1 (Peer_reference (Some value_input_class) some_output)
       (unbound_input value_input_class True) (graph_at 7) =
     Inr (bind_output 1 (Some some_output) (unbound_input value_input_class True) (graph_at 7))"
    using bind_input_type_check[where c = value_input_class
        and i = "unbound_input value_input_class True"] c by blast
  have t3: "bind_input 0 1 (Peer_reference (Some value_output_class) some_output)
       (unbound_input value_input_class True) (graph_at 7) =
     Inr (bind_output 1 (Some some_output) (unbound_input value_input_class True) (graph_at 7))"
    using bind_input_type_check[where c = value_output_class
        and i = "unbound_input value_input_class True"] d by blast
  from a b c d t1 t2 t3 show ?thesis unfolding e by simp
qed

text \<open>
  C9 as stated fails for a reference built from an output. Its recorded type is the class
  of that output, of which no input is an instance; \<open>bind_input\<close> makes no test and
  binds a set input, and a reference input, to the scalar output.
\<close>

theorem bind_input_output_reference_counterexample:
  "make_reference (Some some_output) = Peer_reference (Some value_output_class) some_output \<and>
   isinstance (unbound_input set_input_class True) value_output_class = False \<and>
   bind_input 0 1 (make_reference (Some some_output)) (unbound_input set_input_class True)
       (graph_at 7) =
     Inr (Ts_in ((attrs (unbound_input set_input_class True))
                   \<lparr>in_output := Some some_output, sample_time := 7\<rparr>) [],
          graph_at 7) \<and>
   isinstance (unbound_input reference_input_class True) value_output_class = False \<and>
   bind_input 0 1 (make_reference (Some some_output)) (unbound_input reference_input_class True)
       (graph_at 7) =
     Inr (Ts_in ((attrs (unbound_input reference_input_class True))
                   \<lparr>in_value := Some (Peer_reference (Some value_output_class) some_output),
                     sample_time := 7\<rparr>) [],
          (graph_at 7)\<lparr>schedule_node_calls := [(1, 7)]\<rparr>)"
  by (simp add: make_reference_def some_output_def isinstance_def issubclass_def
        unbound_input_def set_input_class_def value_output_class_def reference_input_class_def
        type_mismatch_def bind_output_def bound_bind_output_def is_reference_input_def
        ref_bind_output_def ref_do_bind_output_def super_do_bind_output_def is_reference_output_def notify_def
        schedule_node_def graph_at_def)

section \<open>Properties of the reference output\<close>










end
